theory Spec2Isabelle
  imports Complex_Main "HOL-Library.AList" "HOL-Library.Char_ord" "HOL-Library.List_Lexorder"
begin

section \<open>The dataset acquisition routine (2-problem-data-eda.ipynb)\<close>

text \<open>
  The notebook's first code cell:
  \<^verbatim>\<open>
  def load_housing_data():
      tarball_path = Path("data/housing.tgz")
      if not tarball_path.is_file():
          Path("data").mkdir(parents=True, exist_ok=True)
          url = "https://github.com/ageron/data/raw/main/housing.tgz"
          urllib.request.urlretrieve(url, tarball_path)
          with tarfile.open(tarball_path) as housing_tarball:
              housing_tarball.extractall(path="data")
      return pd.read_csv(Path("data/housing/housing.csv"))
  \<close>
  The routine acts on the local filesystem and on the network. The filesystem is a map
  from paths to nodes; everything the routine cannot decide by itself (permissions, what
  the remote host answers, what the archive holds, how the table file parses) is a field
  of an environment record, so that every theorem holds for every environment. Each
  library call appends one event to a log, which is how fetches and extractions are
  counted.
\<close>

type_synonym path = string
type_synonym url = string
type_synonym content = string

text \<open>
  A node of the filesystem: a regular file that the process may read, a regular file
  whose permission bits deny reading (\<open>Sealed\<close>), a directory, or a directory that
  the process may not search (\<open>SealedDir\<close>). The map need not list the directories
  above a path that it holds: a path in the map is one that the process can reach, and
  the directories above a path are looked at only when the map does not hold the path.
\<close>

datatype node = File content | Sealed content | Dir | SealedDir

datatype event = Mkdir path | Fetch url path | Extract path path | Read path

text \<open>
  The routine has no \<^verbatim>\<open>try\<close>: whatever a library call raises leaves the routine.
  The exceptions are grouped by the step that raises them:
  \<^item> \<open>FilesystemError\<close>: an \<^verbatim>\<open>OSError\<close> of the local filesystem (\<^verbatim>\<open>PermissionError\<close>,
    \<^verbatim>\<open>FileExistsError\<close>, \<^verbatim>\<open>IsADirectoryError\<close>) from \<^verbatim>\<open>is_file\<close>, from \<^verbatim>\<open>mkdir\<close> or
    from opening a file;
  \<^item> \<open>NetworkError\<close>: \<^verbatim>\<open>URLError\<close>, \<^verbatim>\<open>HTTPError\<close> or \<^verbatim>\<open>ContentTooShortError\<close> from
    \<^verbatim>\<open>urlretrieve\<close>;
  \<^item> \<open>ExtractionError\<close>: \<^verbatim>\<open>tarfile.ReadError\<close>, or an \<^verbatim>\<open>OSError\<close> while a member is
    written;
  \<^item> \<open>FileNotFound\<close>: \<^verbatim>\<open>FileNotFoundError\<close> from opening a path that does not exist;
  \<^item> \<open>NotADirectory\<close>: \<^verbatim>\<open>NotADirectoryError\<close> from opening a path below a regular file;
  \<^item> \<open>ParseError\<close>: the parser of \<^verbatim>\<open>read_csv\<close> rejects the file's content;
  \<^item> \<open>KeyError\<close>: a column label that the table does not have;
  \<^item> \<open>ValueError\<close>: a value that an encoder has no category for.
\<close>

datatype error =
    FilesystemError
  | NetworkError
  | ExtractionError
  | FileNotFound
  | NotADirectory
  | ParseError
  | KeyError string
  | ValueError

text \<open>
  What the remote host does with a request: no answer or an error status (nothing is
  written locally), a body that ends early (the part received is already in the target
  file when \<^verbatim>\<open>ContentTooShortError\<close> is raised), or the complete body.
\<close>

datatype response = Unreachable | Truncated content | Complete content

record 't env =
  can_mkdir :: "path \<Rightarrow> bool"
  can_write :: "path \<Rightarrow> bool"
  remote :: "url \<Rightarrow> response"
  untar :: "content \<Rightarrow> (path \<times> content) list option"
  parse :: "content \<Rightarrow> 't option"

record world =
  files :: "path \<rightharpoonup> node"
  log :: "event list"

definition emit :: "event \<Rightarrow> world \<Rightarrow> world" where
  "emit e w = w\<lparr>log := log w @ [e]\<rparr>"

text \<open>The directories above a path, outermost first: the parts of the path that end
  before a \<open>/\<close>.\<close>

fun ancestors_from :: "path \<Rightarrow> path \<Rightarrow> path list" where
  "ancestors_from pre [] = []"
| "ancestors_from pre (c # cs) =
     (if c = CHR ''/'' then pre # ancestors_from (pre @ [c]) cs
      else ancestors_from (pre @ [c]) cs)"

definition parents :: "path \<Rightarrow> path list" where
  "parents p = ancestors_from [] p"

text \<open>What stops the lookup of a path that the map does not hold: a regular file where
  a directory is needed (\<^verbatim>\<open>ENOTDIR\<close>), or a directory that may not be searched
  (\<^verbatim>\<open>EACCES\<close>, a \<^verbatim>\<open>PermissionError\<close>). The first such directory on the way decides.\<close>

fun barrier :: "world \<Rightarrow> path list \<Rightarrow> error option" where
  "barrier w [] = None"
| "barrier w (q # qs) =
     (case files w q of
        Some (File c) \<Rightarrow> Some NotADirectory
      | Some (Sealed c) \<Rightarrow> Some NotADirectory
      | Some SealedDir \<Rightarrow> Some FilesystemError
      | Some Dir \<Rightarrow> barrier w qs
      | None \<Rightarrow> barrier w qs)"

text \<open>\<^verbatim>\<open>Path(p).is_file()\<close>: the answer of \<^verbatim>\<open>stat\<close>, which needs no read permission on
  the file itself. The method answers \<^verbatim>\<open>False\<close> for a path that does not exist or that
  lies below a regular file, and lets a \<^verbatim>\<open>PermissionError\<close> pass.\<close>

definition path_is_file :: "world \<Rightarrow> path \<Rightarrow> error + bool" where
  "path_is_file w p =
     (case files w p of
        Some (File c) \<Rightarrow> Inr True
      | Some (Sealed c) \<Rightarrow> Inr True
      | Some Dir \<Rightarrow> Inr False
      | Some SealedDir \<Rightarrow> Inr False
      | None \<Rightarrow>
          (case barrier w (parents p) of
             None \<Rightarrow> Inr False
           | Some e \<Rightarrow> if e = NotADirectory then Inr False else Inl e))"

text \<open>The path is a regular file: \<^verbatim>\<open>Path(p).is_file()\<close> returns \<^verbatim>\<open>True\<close>.\<close>

definition is_file :: "world \<Rightarrow> path \<Rightarrow> bool" where
  "is_file w p = (path_is_file w p = Inr True)"

text \<open>A path can be opened for writing when it is not a directory and the
  environment permits the write; whether the directories above the path let a file be
  created there is part of what the environment permits.\<close>

definition writable :: "'t env \<Rightarrow> (path \<rightharpoonup> node) \<Rightarrow> path \<Rightarrow> bool" where
  "writable env fs p = (fs p \<noteq> Some Dir \<and> can_write env p)"

text \<open>\<^verbatim>\<open>Path(p).mkdir(parents=True, exist_ok=True)\<close> for a path of one component: an
  existing directory is accepted, an existing regular file raises \<^verbatim>\<open>FileExistsError\<close>,
  and a denied creation raises \<^verbatim>\<open>PermissionError\<close>.\<close>

definition mkdir :: "'t env \<Rightarrow> path \<Rightarrow> world \<Rightarrow> world \<times> (error + unit)" where
  "mkdir env p w =
     (let w1 = emit (Mkdir p) w in
      case files w p of
        Some Dir \<Rightarrow> (w1, Inr ())
      | Some SealedDir \<Rightarrow> (w1, Inr ())
      | Some (File c) \<Rightarrow> (w1, Inl FilesystemError)
      | Some (Sealed c) \<Rightarrow> (w1, Inl FilesystemError)
      | None \<Rightarrow>
          if can_mkdir env p then (w1\<lparr>files := (files w)(p \<mapsto> Dir)\<rparr>, Inr ())
          else (w1, Inl FilesystemError))"

text \<open>\<^verbatim>\<open>urllib.request.urlretrieve(u, p)\<close>: the request is sent first, then the target is
  opened for writing, then the body is copied, and a short body raises at the end.\<close>

definition urlretrieve :: "'t env \<Rightarrow> url \<Rightarrow> path \<Rightarrow> world \<Rightarrow> world \<times> (error + unit)" where
  "urlretrieve env u p w =
     (let w1 = emit (Fetch u p) w in
      case remote env u of
        Unreachable \<Rightarrow> (w1, Inl NetworkError)
      | Truncated c \<Rightarrow>
          if writable env (files w) p
          then (w1\<lparr>files := (files w)(p \<mapsto> File c)\<rparr>, Inl NetworkError)
          else (w1, Inl FilesystemError)
      | Complete c \<Rightarrow>
          if writable env (files w) p
          then (w1\<lparr>files := (files w)(p \<mapsto> File c)\<rparr>, Inr ())
          else (w1, Inl FilesystemError))"

text \<open>The members of an archive are written in order below the target directory; the
  first one that cannot be written stops the extraction, with the earlier ones in
  place.\<close>

fun write_members ::
  "'t env \<Rightarrow> path \<Rightarrow> (path \<times> content) list \<Rightarrow> (path \<rightharpoonup> node) \<Rightarrow> (path \<rightharpoonup> node) \<times> (error + unit)"
where
  "write_members env d [] fs = (fs, Inr ())"
| "write_members env d ((p, c) # ms) fs =
     (if writable env fs (d @ ''/'' @ p)
      then write_members env d ms (fs(d @ ''/'' @ p \<mapsto> File c))
      else (fs, Inl ExtractionError))"

text \<open>\<^verbatim>\<open>with tarfile.open(t) as tb: tb.extractall(path=d)\<close>.\<close>

definition extractall :: "'t env \<Rightarrow> path \<Rightarrow> path \<Rightarrow> world \<Rightarrow> world \<times> (error + unit)" where
  "extractall env t d w =
     (let w1 = emit (Extract t d) w in
      case files w t of
        None \<Rightarrow> (w1, Inl FileNotFound)
      | Some Dir \<Rightarrow> (w1, Inl FilesystemError)
      | Some SealedDir \<Rightarrow> (w1, Inl FilesystemError)
      | Some (Sealed c) \<Rightarrow> (w1, Inl FilesystemError)
      | Some (File c) \<Rightarrow>
          (case untar env c of
             None \<Rightarrow> (w1, Inl ExtractionError)
           | Some ms \<Rightarrow>
               (case write_members env d ms (files w) of
                  (fs, r) \<Rightarrow> (w1\<lparr>files := fs\<rparr>, r))))"

text \<open>\<^verbatim>\<open>pd.read_csv(p)\<close>: open the file, then parse its content. Opening a path that
  does not exist raises \<^verbatim>\<open>NotADirectoryError\<close> when a regular file stands where one of
  its directories should be, \<^verbatim>\<open>PermissionError\<close> when one of its directories may not
  be searched, and \<^verbatim>\<open>FileNotFoundError\<close> otherwise; opening a file that may not be
  read raises \<^verbatim>\<open>PermissionError\<close>, opening a directory \<^verbatim>\<open>IsADirectoryError\<close>.\<close>

definition read_csv :: "'t env \<Rightarrow> path \<Rightarrow> world \<Rightarrow> world \<times> (error + 't)" where
  "read_csv env p w =
     (let w1 = emit (Read p) w in
      case files w p of
        None \<Rightarrow>
          (case barrier w (parents p) of
             None \<Rightarrow> (w1, Inl FileNotFound)
           | Some e \<Rightarrow> (w1, Inl e))
      | Some Dir \<Rightarrow> (w1, Inl FilesystemError)
      | Some SealedDir \<Rightarrow> (w1, Inl FilesystemError)
      | Some (Sealed c) \<Rightarrow> (w1, Inl FilesystemError)
      | Some (File c) \<Rightarrow>
          (case parse env c of
             None \<Rightarrow> (w1, Inl ParseError)
           | Some t \<Rightarrow> (w1, Inr t)))"

definition tarball_path :: path where
  "tarball_path = ''data/housing.tgz''"

definition housing_url :: url where
  "housing_url = ''https://github.com/ageron/data/raw/main/housing.tgz''"

definition csv_path :: path where
  "csv_path = ''data/housing/housing.csv''"

definition load_housing_data :: "'t env \<Rightarrow> world \<Rightarrow> world \<times> (error + 't)" where
  "load_housing_data env w =
     (case path_is_file w tarball_path of
        Inl e \<Rightarrow> (w, Inl e)
      | Inr cached \<Rightarrow>
          if \<not> cached then
            (case mkdir env ''data'' w of
               (w1, Inl e) \<Rightarrow> (w1, Inl e)
             | (w1, Inr u1) \<Rightarrow>
                 (case urlretrieve env housing_url tarball_path w1 of
                    (w2, Inl e) \<Rightarrow> (w2, Inl e)
                  | (w2, Inr u2) \<Rightarrow>
                      (case extractall env tarball_path ''data'' w2 of
                         (w3, Inl e) \<Rightarrow> (w3, Inl e)
                       | (w3, Inr u3) \<Rightarrow> read_csv env csv_path w3)))
          else read_csv env csv_path w)"

text \<open>Counting the network fetches and the extractions a log records.\<close>

definition is_fetch :: "event \<Rightarrow> bool" where
  "is_fetch e = (case e of Fetch u p \<Rightarrow> True | _ \<Rightarrow> False)"

definition is_extract :: "event \<Rightarrow> bool" where
  "is_extract e = (case e of Extract t d \<Rightarrow> True | _ \<Rightarrow> False)"

definition fetches :: "world \<Rightarrow> nat" where
  "fetches w = length (filter is_fetch (log w))"

definition extractions :: "world \<Rightarrow> nat" where
  "extractions w = length (filter is_extract (log w))"


section \<open>Attribute combinations (2-problem-data-eda.ipynb)\<close>

text \<open>
  \<^verbatim>\<open>
  housing["rooms_per_house"] = housing["total_rooms"] / housing["households"]
  housing["bedrooms_ratio"] = housing["total_bedrooms"] / housing["total_rooms"]
  housing["people_per_house"] = housing["population"] / housing["households"]
  \<close>
  A table is the list of its labelled columns, in column order. \<^verbatim>\<open>df[k]\<close> raises
  \<^verbatim>\<open>KeyError\<close> for a label the table does not have; \<^verbatim>\<open>df[k] = col\<close> replaces the
  column \<open>k\<close> where it stands, or appends it as the last column; \<^verbatim>\<open>/\<close> divides two
  columns of one table row by row. The division of two cells is a parameter \<open>fdiv\<close>:
  the theorems hold for every such function, floating-point division with its
  infinities and NaN included.
\<close>

type_synonym 'v frame = "(string \<times> 'v list) list"

definition getitem :: "'v frame \<Rightarrow> string \<Rightarrow> error + 'v list" where
  "getitem df k = (case map_of df k of None \<Rightarrow> Inl (KeyError k) | Some col \<Rightarrow> Inr col)"

definition setitem :: "'v frame \<Rightarrow> string \<Rightarrow> 'v list \<Rightarrow> 'v frame" where
  "setitem df k col = AList.update k col df"

definition truediv :: "('v \<Rightarrow> 'v \<Rightarrow> 'v) \<Rightarrow> 'v list \<Rightarrow> 'v list \<Rightarrow> 'v list" where
  "truediv fdiv xs ys = map2 fdiv xs ys"

text \<open>One line of the cell: \<^verbatim>\<open>df[new] = df[a] / df[b]\<close>. The left operand is read
  first.\<close>

definition ratio_feature ::
  "('v \<Rightarrow> 'v \<Rightarrow> 'v) \<Rightarrow> string \<Rightarrow> string \<Rightarrow> string \<Rightarrow> 'v frame \<Rightarrow> error + 'v frame"
where
  "ratio_feature fdiv new a b df =
     (case getitem df a of
        Inl e \<Rightarrow> Inl e
      | Inr xs \<Rightarrow>
          (case getitem df b of
             Inl e \<Rightarrow> Inl e
           | Inr ys \<Rightarrow> Inr (setitem df new (truediv fdiv xs ys))))"

definition attribute_combinations ::
  "('v \<Rightarrow> 'v \<Rightarrow> 'v) \<Rightarrow> 'v frame \<Rightarrow> error + 'v frame"
where
  "attribute_combinations fdiv housing =
     (case ratio_feature fdiv ''rooms_per_house'' ''total_rooms'' ''households'' housing of
        Inl e \<Rightarrow> Inl e
      | Inr h1 \<Rightarrow>
          (case ratio_feature fdiv ''bedrooms_ratio'' ''total_bedrooms'' ''total_rooms'' h1 of
             Inl e \<Rightarrow> Inl e
           | Inr h2 \<Rightarrow>
               ratio_feature fdiv ''people_per_house'' ''population'' ''households'' h2))"

section \<open>One-hot encoding (4-encoding.ipynb)\<close>

text \<open>
  The notebook calls \<^verbatim>\<open>fit_transform\<close> of \<^verbatim>\<open>OneHotEncoder(sparse=False)\<close> on the
  \<open>Color\<close> column of its table, and of \<^verbatim>\<open>OneHotEncoder()\<close> on a column of three
  colours. The encoder belongs to scikit-learn: the notebooks hold the calls, not the
  encoder's code. The spec names the operation
  \<^verbatim>\<open>encode_onehot(column, categories) -> matrix\<close> and describes it in its glossary and
  in its testable properties; the definitions of this section follow those words.
\<close>

text \<open>Modelled from the spec: the position of a value's category in the category list
  ("the position of its category"); the encoder's code is missing from the sources.\<close>

fun position :: "string list \<Rightarrow> string \<Rightarrow> nat option" where
  "position [] v = None"
| "position (c # cs) v = (if c = v then Some 0 else map_option Suc (position cs v))"

text \<open>Modelled from the spec: the encoding of one value, "a vector with exactly one 1 at
  the position of its category and 0 elsewhere"; the encoder's code is missing from the
  sources. A value whose category is missing has no encoding.\<close>

definition one_hot :: "string list \<Rightarrow> string \<Rightarrow> error + nat list" where
  "one_hot cats v =
     (case position cats v of
        None \<Rightarrow> Inl ValueError
      | Some i \<Rightarrow> Inr ((replicate (length cats) 0)[i := 1]))"

text \<open>Modelled from the spec: \<^verbatim>\<open>encode_onehot(column, categories)\<close>, one row per row of
  the column; the encoder's code is missing from the sources.\<close>

fun encode_onehot :: "string list \<Rightarrow> string list \<Rightarrow> error + nat list list" where
  "encode_onehot [] cats = Inr []"
| "encode_onehot (v # vs) cats =
     (case one_hot cats v of
        Inl e \<Rightarrow> Inl e
      | Inr r \<Rightarrow> (case encode_onehot vs cats of Inl e \<Rightarrow> Inl e | Inr rs \<Rightarrow> Inr (r # rs)))"

text \<open>Modelled from the spec: the category set of a column, "one binary column per
  distinct category value", the categories in alphabetical order; the encoder's code is
  missing from the sources.\<close>

definition fit :: "string list \<Rightarrow> string list" where
  "fit column = sort (remdups column)"

text \<open>Modelled from the spec: the notebook's call \<^verbatim>\<open>fit_transform\<close>, encoding a column
  over its own category set; the encoder's code is missing from the sources.\<close>

definition fit_transform :: "string list \<Rightarrow> error + nat list list" where
  "fit_transform column = encode_onehot column (fit column)"

text \<open>Modelled from the spec: recovering a row's category "by locating the 1 column",
  that is, the category of the first column that holds a 1.\<close>

fun decode :: "string list \<Rightarrow> nat list \<Rightarrow> string option" where
  "decode (c # cs) (b # bs) = (if b = 1 then Some c else decode cs bs)"
| "decode cs bs = None"

section \<open>Running the cells of 4-encoding.ipynb\<close>

text \<open>
  A cell is a sequence of statements run against the kernel's namespace. A statement
  is kept as the steps Python takes to evaluate it, in order, and the global names it
  binds at its end. A step is either the load of a global name, which raises
  \<^verbatim>\<open>NameError\<close> when the name is not bound, or an operation of a library (an import,
  an attribute access, a subscript, a call; successive operations are one step), which
  may raise an exception of its own, such as the \<^verbatim>\<open>TypeError\<close> of a constructor that
  does not know a keyword. Whether an operation raises is not decided by the notebook:
  it is a parameter \<open>lib\<close>, asked with the position of the statement in the cell and
  the position of the step in the statement. The first exception ends the cell.
\<close>

datatype step = Load string | Op

datatype stmt = Stmt (steps: "step list") (binds: "string list")

datatype stop = NameError string | LibraryError

fun exec :: "(nat \<Rightarrow> bool) \<Rightarrow> string set \<Rightarrow> nat \<Rightarrow> step list \<Rightarrow> stop option" where
  "exec raises ns j [] = None"
| "exec raises ns j (Load n # ss) =
     (if n \<in> ns then exec raises ns (Suc j) ss else Some (NameError n))"
| "exec raises ns j (Op # ss) =
     (if raises j then Some LibraryError else exec raises ns (Suc j) ss)"

text \<open>The result of running a cell from its statement number \<open>i\<close> on: the namespace
  at the end, the number of statements completed, and the exception that ended the
  cell, if one did.\<close>

fun run ::
  "(nat \<Rightarrow> nat \<Rightarrow> bool) \<Rightarrow> nat \<Rightarrow> string set \<Rightarrow> stmt list \<Rightarrow> string set \<times> nat \<times> stop option"
where
  "run lib i ns [] = (ns, 0, None)"
| "run lib i ns (s # ss) =
     (case exec (lib i) ns 0 (steps s) of
        Some e \<Rightarrow> (ns, 0, Some e)
      | None \<Rightarrow>
          (case run lib (Suc i) (ns \<union> set (binds s)) ss of
             (ns', k, r) \<Rightarrow> (ns', Suc k, r)))"

text \<open>The first code cell (ordinal encoding and clustering).\<close>

definition ordinal_cell :: "stmt list" where
  "ordinal_cell =
    [Stmt [Op] [''np''],
     Stmt [Op] [''pd''],
     Stmt [Op] [''plt''],
     Stmt [Op] [''KMeans''],
     Stmt [Op] [''OrdinalEncoder''],
     Stmt [] [''n_samples''],
     Stmt [Load ''np'', Op, Load ''n_samples'', Op] [''sweet_juicy''],
     Stmt [Load ''np'', Op, Load ''n_samples'', Op] [''not_sweet_not_juicy''],
     Stmt [Load ''np'', Op, Load ''n_samples'', Op] [''colors_sweet_juicy''],
     Stmt [Load ''np'', Op, Load ''n_samples'', Op] [''colors_not_sweet_not_juicy''],
     Stmt [Load ''np'', Op, Load ''sweet_juicy'', Load ''not_sweet_not_juicy'', Op] [''X''],
     Stmt [Load ''np'', Op, Load ''colors_sweet_juicy'', Load ''colors_not_sweet_not_juicy'', Op] [''colors''],
     Stmt [Load ''pd'', Op, Load ''X'', Op] [''df''],
     Stmt [Load ''colors'', Load ''df'', Op] [],
     Stmt [Load ''OrdinalEncoder'', Op] [''le1''],
     Stmt [Load ''le1'', Op, Load ''df'', Op, Load ''df'', Op] [],
     Stmt [] [''color_mapping''],
     Stmt [Load ''df'', Op, Load ''color_mapping'', Op, Load ''df'', Op] [],
     Stmt [Load ''KMeans'', Op] [''kmeans_auto''],
     Stmt [Load ''kmeans_auto'', Op, Load ''df'', Op, Load ''df'', Op] [],
     Stmt [Load ''KMeans'', Op] [''kmeans_manual''],
     Stmt [Load ''kmeans_manual'', Op, Load ''df'', Op, Load ''df'', Op] [],
     Stmt [Load ''plt'', Op] [''fig'', ''axes''],
     Stmt [Load ''axes'', Op, Load ''df'', Op, Load ''df'', Op, Load ''df'', Op] [],
     Stmt [Load ''axes'', Op] [],
     Stmt [Load ''axes'', Op] [],
     Stmt [Load ''axes'', Op] [],
     Stmt [Load ''axes'', Op, Load ''df'', Op, Load ''df'', Op, Load ''df'', Op] [],
     Stmt [Load ''axes'', Op] [],
     Stmt [Load ''axes'', Op] [],
     Stmt [Load ''axes'', Op] [],
     Stmt [Load ''plt'', Op] []]"

text \<open>The second code cell, the one-hot encoding demonstration, in two parts: the
  statements up to the combined table, and the statements from
  \<^verbatim>\<open>le1 = LabelEncoder()\<close> on, which hold the clustering comparison. The fifteenth
  statement is \<^verbatim>\<open>encoder = OneHotEncoder(sparse=False)\<close>.\<close>

definition onehot_prefix :: "stmt list" where
  "onehot_prefix =
    [Stmt [Op] [''np''],
     Stmt [Op] [''pd''],
     Stmt [Op] [''plt''],
     Stmt [Op] [''KMeans''],
     Stmt [Op] [''OneHotEncoder''],
     Stmt [] [''n_samples''],
     Stmt [Load ''np'', Op, Load ''n_samples'', Op] [''sweet_juicy''],
     Stmt [Load ''np'', Op, Load ''n_samples'', Op] [''not_sweet_not_juicy''],
     Stmt [Load ''np'', Op, Load ''n_samples'', Op] [''colors_sweet_juicy''],
     Stmt [Load ''np'', Op, Load ''n_samples'', Op] [''colors_not_sweet_not_juicy''],
     Stmt [Load ''np'', Op, Load ''sweet_juicy'', Load ''not_sweet_not_juicy'', Op] [''X''],
     Stmt [Load ''np'', Op, Load ''colors_sweet_juicy'', Load ''colors_not_sweet_not_juicy'', Op] [''colors''],
     Stmt [Load ''pd'', Op, Load ''X'', Op] [''df''],
     Stmt [Load ''colors'', Load ''df'', Op] [],
     Stmt [Load ''OneHotEncoder'', Op] [''encoder''],
     Stmt [Load ''encoder'', Op, Load ''df'', Op] [''colors_one_hot''],
     Stmt [Load ''pd'', Op, Load ''colors_one_hot'', Load ''encoder'', Op] [''df_one_hot''],
     Stmt [Load ''pd'', Op, Load ''df'', Load ''df_one_hot'', Op] [''df_combined'']]"

definition onehot_rest :: "stmt list" where
  "onehot_rest =
    [Stmt [Load ''LabelEncoder'', Op] [''le1''],
     Stmt [Load ''le1'', Op, Load ''df'', Op, Load ''df'', Op] [],
     Stmt [Load ''KMeans'', Op] [''kmeans_auto''],
     Stmt [Load ''kmeans_auto'', Op, Load ''df'', Op, Load ''df'', Op] [],
     Stmt [Load ''KMeans'', Op] [''kmeans_one_hot''],
     Stmt [Load ''kmeans_one_hot'', Op, Load ''df_combined'', Op, Load ''df_combined'', Op] [],
     Stmt [Load ''plt'', Op] [''fig'', ''axes''],
     Stmt [Load ''axes'', Op, Load ''df'', Op, Load ''df'', Op, Load ''df'', Op] [],
     Stmt [Load ''axes'', Op] [],
     Stmt [Load ''axes'', Op] [],
     Stmt [Load ''axes'', Op] [],
     Stmt [Load ''axes'', Op, Load ''df_combined'', Op, Load ''df_combined'', Op, Load ''df_combined'', Op] [],
     Stmt [Load ''axes'', Op] [],
     Stmt [Load ''axes'', Op] [],
     Stmt [Load ''axes'', Op] [],
     Stmt [Load ''plt'', Op] []]"

definition onehot_cell :: "stmt list" where
  "onehot_cell = onehot_prefix @ onehot_rest"

text \<open>The third code cell (the sparse output).\<close>

definition sparse_cell :: "stmt list" where
  "sparse_cell =
    [Stmt [] [''X''],
     Stmt [Load ''OneHotEncoder'', Op] [''encoder_sparse''],
     Stmt [Load ''encoder_sparse'', Op, Load ''X'', Op] [''sparse_output''],
     Stmt [Load ''pd'', Op, Load ''sparse_output'', Load ''encoder_sparse'', Op] []]"

text \<open>The fourth code cell is a loop over the columns of \<^verbatim>\<open>df\<close>. Its statements are
  listed in textual order, the loop header as the statement that binds \<^verbatim>\<open>col\<close>; the
  list is used for the names the cell can bind, not run.\<close>

definition columns_cell :: "stmt list" where
  "columns_cell =
    [Stmt [Op] [''pd''],
     Stmt [Op] [''OneHotEncoder''],
     Stmt [Load ''pd'', Op] [''df_transformed''],
     Stmt [Load ''df'', Op] [''col''],
     Stmt [Load ''df'', Load ''col'', Op, Load ''df'', Load ''col'', Op] [],
     Stmt [Load ''OneHotEncoder'', Op] [''encoder''],
     Stmt [Load ''encoder'', Op, Load ''df'', Load ''col'', Op] [''one_hot_encoded''],
     Stmt [Load ''pd'', Op, Load ''one_hot_encoded'', Load ''encoder'', Op, Load ''col'', Op] [''one_hot_df''],
     Stmt [Load ''pd'', Op, Load ''df_transformed'', Load ''one_hot_df'', Op] [''df_transformed''],
     Stmt [Load ''df'', Load ''col'', Op, Load ''df_transformed'', Load ''col'', Op] []]"

text \<open>Every name that some statement of the notebook binds. A kernel that has run only
  cells of this notebook, in any order and any number of times, binds no other name
  apart from those that Python and IPython provide themselves.\<close>

definition notebook_names :: "string set" where
  "notebook_names =
     set (concat (map binds (ordinal_cell @ onehot_cell @ sparse_cell @ columns_cell)))"

section \<open>Example environments and tables\<close>

text \<open>Concrete inputs on which the theorems below are instantiated.\<close>

definition fresh_world :: world where
  "fresh_world = \<lparr>files = Map.empty, log = []\<rparr>"

definition stale_world :: world where
  "stale_world = \<lparr>files = [''data'' \<mapsto> Dir, ''data/housing.tgz'' \<mapsto> File ''partial''], log = []\<rparr>"

definition blocked_world :: world where
  "blocked_world =
     \<lparr>files = [''data'' \<mapsto> Dir, ''data/housing.tgz'' \<mapsto> File ''tgz'',
               ''data/housing'' \<mapsto> File ''note''],
      log = []\<rparr>"

definition served_world :: world where
  "served_world =
     \<lparr>files = [''data'' \<mapsto> Dir, ''data/housing.tgz'' \<mapsto> File ''partial'',
               ''data/housing'' \<mapsto> Dir,
               ''data/housing/housing.csv'' \<mapsto> File ''longitude,latitude''],
      log = []\<rparr>"

definition demo_env :: "string env" where
  "demo_env =
     \<lparr>can_mkdir = (\<lambda>p. True),
      can_write = (\<lambda>p. True),
      remote = (\<lambda>u. Complete ''tgz''),
      untar = (\<lambda>c. if c = ''tgz'' then Some [(''housing/housing.csv'', ''longitude,latitude'')]
                    else None),
      parse = (\<lambda>c. Some c)\<rparr>"

definition flaky_env :: "string env" where
  "flaky_env = demo_env\<lparr>remote := (\<lambda>u. Truncated ''tg'')\<rparr>"

definition offline_env :: "string env" where
  "offline_env = demo_env\<lparr>remote := (\<lambda>u. Unreachable)\<rparr>"

definition readonly_env :: "string env" where
  "readonly_env = demo_env\<lparr>can_mkdir := (\<lambda>p. False)\<rparr>"

definition corrupt_env :: "string env" where
  "corrupt_env = demo_env\<lparr>untar := (\<lambda>c. None)\<rparr>"

definition sample_housing :: "rat frame" where
  "sample_housing =
     [(''total_rooms'', [880, 7099]),
      (''total_bedrooms'', [129, 1106]),
      (''population'', [322, 2401]),
      (''households'', [126, 1138])]"

definition quiet_lib :: "nat \<Rightarrow> nat \<Rightarrow> bool" where
  "quiet_lib i j = False"

definition sparse_rejected :: "nat \<Rightarrow> nat \<Rightarrow> bool" where
  "sparse_rejected i j = (i = 14 \<and> j = 1)"

section \<open>Properties of the acquisition routine\<close>

subsection \<open>Basic facts about the library calls\<close>


lemma files_emit [simp]: "files (emit e w) = files w"
  by (simp add: emit_def)

lemma log_emit [simp]: "log (emit e w) = log w @ [e]"
  by (simp add: emit_def)

lemma parents_tarball: "parents tarball_path = [''data'']"
  by (simp add: parents_def tarball_path_def)

lemma parents_csv: "parents csv_path = [''data'', ''data/housing'']"
  by (simp add: parents_def csv_path_def)

lemma barrier_cong:
  "\<forall>q \<in> set qs. files w q = files w' q \<Longrightarrow> barrier w qs = barrier w' qs"
  by (induction qs) (auto split: option.splits node.splits)

lemma path_is_file_cong:
  "files w = files w' \<Longrightarrow> path_is_file w p = path_is_file w' p"
  using barrier_cong [of "parents p" w w']
  by (simp add: path_is_file_def split: option.splits node.splits)

lemma path_is_file_emit [simp]: "path_is_file (emit e w) p = path_is_file w p"
  by (rule path_is_file_cong) simp

lemma is_file_emit [simp]: "is_file (emit e w) p = is_file w p"
  by (simp add: is_file_def)

lemma is_file_iff:
  "is_file w p \<longleftrightarrow> (\<exists>c. files w p = Some (File c) \<or> files w p = Some (Sealed c))"
  by (auto simp: is_file_def path_is_file_def split: option.splits node.splits)

lemma is_file_File: "files w p = Some (File c) \<Longrightarrow> is_file w p"
  by (auto simp: is_file_iff)

lemma is_file_files: "files w = files w' \<Longrightarrow> is_file w p = is_file w' p"
  by (simp add: is_file_iff)

lemma files_read_csv [simp]: "files (fst (read_csv env p w)) = files w"
  by (simp add: read_csv_def Let_def split: option.splits node.splits)

lemma log_read_csv [simp]: "log (fst (read_csv env p w)) = log w @ [Read p]"
  by (simp add: read_csv_def Let_def split: option.splits node.splits)

lemma fst_read_csv: "fst (read_csv env p w) = emit (Read p) w"
  by (simp add: read_csv_def Let_def split: option.splits node.splits)

lemma snd_read_csv_cong:
  assumes "files w p = files w' p" and "\<forall>q \<in> set (parents p). files w q = files w' q"
  shows "snd (read_csv env p w) = snd (read_csv env p w')"
  using assms(1) barrier_cong [OF assms(2)]
  by (simp add: read_csv_def Let_def split: option.splits node.splits)

lemma snd_read_csv_files:
  "files w = files w' \<Longrightarrow> snd (read_csv env p w) = snd (read_csv env p w')"
  by (rule snd_read_csv_cong) simp_all

lemma load_cache_hit:
  "is_file w tarball_path \<Longrightarrow> load_housing_data env w = read_csv env csv_path w"
  by (simp add: load_housing_data_def is_file_def)

lemma load_denied:
  "path_is_file w tarball_path = Inl e \<Longrightarrow> load_housing_data env w = (w, Inl e)"
  by (simp add: load_housing_data_def)

text \<open>With nothing at the cache path and no directory above it that may not be
  searched, \<^verbatim>\<open>is_file\<close> answers \<^verbatim>\<open>False\<close>.\<close>

lemma absent_miss:
  assumes "files w tarball_path = None" and "files w ''data'' \<noteq> Some SealedDir"
  shows "path_is_file w tarball_path = Inr False"
  using assms
  by (auto simp: path_is_file_def parents_tarball split: option.splits node.splits)

lemma absent_searched:
  assumes "files w tarball_path = None" and "path_is_file w tarball_path = Inr b"
  shows "files w ''data'' \<noteq> Some SealedDir \<and> b = False"
  using assms
  by (auto simp: path_is_file_def parents_tarball split: option.splits node.splits)

lemma fetches_append: "fetches (w\<lparr>log := log w @ es\<rparr>) = fetches w + length (filter is_fetch es)"
  by (simp add: fetches_def)

lemma fetches_log: "log w' = log w @ es \<Longrightarrow> fetches w' = fetches w + length (filter is_fetch es)"
  by (simp add: fetches_def)

lemma extractions_log:
  "log w' = log w @ es \<Longrightarrow> extractions w' = extractions w + length (filter is_extract es)"
  by (simp add: extractions_def)

lemma write_members_keeps_file:
  "\<exists>c. fs q = Some (File c) \<Longrightarrow> \<exists>c'. fst (write_members env d ms fs) q = Some (File c')"
proof (induction ms arbitrary: fs)
  case Nil
  then show ?case by simp
next
  case (Cons m ms)
  obtain p c where m: "m = (p, c)" by (cases m)
  have "\<exists>c'. (fs(d @ ''/'' @ p \<mapsto> File c)) q = Some (File c')"
    using Cons.prems by simp
  then have "\<exists>c'. fst (write_members env d ms (fs(d @ ''/'' @ p \<mapsto> File c))) q = Some (File c')"
    by (rule Cons.IH)
  then show ?case
    using Cons.prems by (simp add: m)
qed

lemma write_members_ok:
  "\<forall>(p, c) \<in> set ms. can_write env (d @ ''/'' @ p) \<and> fs (d @ ''/'' @ p) \<noteq> Some Dir \<Longrightarrow>
   write_members env d ms fs =
     (fs ++ map_of (rev (map (\<lambda>(p, c). (d @ ''/'' @ p, File c)) ms)), Inr ())"
proof (induction ms arbitrary: fs)
  case Nil
  then show ?case by simp
next
  case (Cons m ms)
  obtain p c where m: "m = (p, c)" by (cases m)
  let ?q = "d @ ''/'' @ p"
  have w: "writable env fs ?q"
    using Cons.prems m by (simp add: writable_def)
  have ok: "\<forall>(p', c') \<in> set ms. can_write env (d @ ''/'' @ p') \<and> (fs(?q \<mapsto> File c)) (d @ ''/'' @ p') \<noteq> Some Dir"
    using Cons.prems m by (fastforce split: if_splits)
  let ?f = "\<lambda>(p, c). (d @ ''/'' @ p, File c)"
  have "write_members env d (m # ms) fs = write_members env d ms (fs(?q \<mapsto> File c))"
    using w by (simp add: m)
  also have "\<dots> = (fs(?q \<mapsto> File c) ++ map_of (rev (map ?f ms)), Inr ())"
    using ok by (rule Cons.IH)
  also have "fs(?q \<mapsto> File c) ++ map_of (rev (map ?f ms)) = (fs ++ [?q \<mapsto> File c]) ++ map_of (rev (map ?f ms))"
    by simp
  also have "\<dots> = fs ++ map_of (rev (map ?f (m # ms)))"
    unfolding map_add_assoc by (simp add: m)
  finally show ?case .
qed

lemma write_members_fails:
  "\<exists>(p, c) \<in> set ms. \<not> can_write env (d @ ''/'' @ p) \<Longrightarrow>
   snd (write_members env d ms fs) = Inl ExtractionError"
proof (induction ms arbitrary: fs)
  case Nil
  then show ?case by simp
next
  case (Cons m ms)
  obtain p c where m: "m = (p, c)" by (cases m)
  show ?case
  proof (cases "writable env fs (d @ ''/'' @ p)")
    case True
    then have "\<exists>(p', c') \<in> set ms. \<not> can_write env (d @ ''/'' @ p')"
      using Cons.prems m by (auto simp: writable_def)
    from Cons.IH [OF this] True show ?thesis
      by (simp add: m)
  next
    case False
    then show ?thesis by (simp add: m)
  qed
qed

subsection \<open>Cache hit\<close>

lemma data_neq_tarball: "''data'' \<noteq> tarball_path"
  by (simp add: tarball_path_def)

lemma files_mkdir_other: "q \<noteq> p \<Longrightarrow> files (fst (mkdir env p w)) q = files w q"
  by (simp add: mkdir_def Let_def split: option.splits node.splits)

lemma log_mkdir: "log (fst (mkdir env p w)) = log w @ [Mkdir p]"
  by (simp add: mkdir_def Let_def split: option.splits node.splits)

lemma log_urlretrieve: "log (fst (urlretrieve env u p w)) = log w @ [Fetch u p]"
  by (simp add: urlretrieve_def Let_def split: response.splits)

lemma log_extractall: "log (fst (extractall env t d w)) = log w @ [Extract t d]"
  by (simp add: extractall_def Let_def split: option.splits node.splits prod.splits)

lemma urlretrieve_ok_file:
  "urlretrieve env u p w = (w', Inr x) \<Longrightarrow> \<exists>c. files w' p = Some (File c)"
  by (auto simp: urlretrieve_def Let_def split: response.splits if_splits)

lemma extractall_keeps_file:
  assumes "\<exists>c. files w q = Some (File c)"
  shows "\<exists>c. files (fst (extractall env t d w)) q = Some (File c)"
proof -
  have "\<exists>c. fst (write_members env d ms (files w)) q = Some (File c)" for ms
    using assms by (rule write_members_keeps_file)
  then show ?thesis
    using assms
    by (auto simp: extractall_def Let_def split: option.splits node.splits prod.splits)
      (metis fst_conv)
qed

text \<open>A call that returns a table ends with a successful read of the table file.\<close>

lemma load_ok_read:
  assumes "load_housing_data env w = (w1, Inr t)"
  shows "\<exists>w'. read_csv env csv_path w' = (w1, Inr t) \<and>
           (is_file w tarball_path \<or> (\<exists>c. files w' tarball_path = Some (File c)))"
proof (cases "is_file w tarball_path")
  case True
  then have "read_csv env csv_path w = (w1, Inr t)"
    using assms by (simp add: load_cache_hit)
  then show ?thesis using True by blast
next
  case False
  have miss: "path_is_file w tarball_path = Inr False"
    using assms False
    by (cases "path_is_file w tarball_path") (auto simp: load_denied is_file_def)
  obtain wa ra where a: "mkdir env ''data'' w = (wa, ra)" by (cases "mkdir env ''data'' w")
  obtain wb rb where b: "urlretrieve env housing_url tarball_path wa = (wb, rb)"
    by (cases "urlretrieve env housing_url tarball_path wa")
  obtain wc rc where c: "extractall env tarball_path ''data'' wb = (wc, rc)"
    by (cases "extractall env tarball_path ''data'' wb")
  from assms miss a b c obtain x where rb: "rb = Inr x"
    and r: "read_csv env csv_path wc = (w1, Inr t)"
    by (auto simp: load_housing_data_def split: sum.splits)
  from b rb have "\<exists>c. files wb tarball_path = Some (File c)"
    by (auto dest: urlretrieve_ok_file)
  then have "\<exists>c. files (fst (extractall env tarball_path ''data'' wb)) tarball_path = Some (File c)"
    by (rule extractall_keeps_file)
  then have "\<exists>c. files wc tarball_path = Some (File c)"
    using c by simp
  then show ?thesis using r by blast
qed

lemma read_csv_fst: "read_csv env p w' = (w1, r) \<Longrightarrow> w1 = emit (Read p) w'"
  using fst_read_csv [of env p w'] by simp

lemma load_ok_is_file:
  assumes "load_housing_data env w = (w1, Inr t)"
  shows "is_file w1 tarball_path"
proof -
  from load_ok_read [OF assms] obtain w' where r: "read_csv env csv_path w' = (w1, Inr t)"
    and d: "is_file w tarball_path \<or> (\<exists>c. files w' tarball_path = Some (File c))"
    by blast
  have w1: "w1 = emit (Read csv_path) w'" using r by (rule read_csv_fst)
  show ?thesis
  proof (cases "is_file w tarball_path")
    case True
    then have "read_csv env csv_path w = (w1, Inr t)"
      using assms by (simp add: load_cache_hit)
    then have "w1 = emit (Read csv_path) w" by (rule read_csv_fst)
    then show ?thesis using True by simp
  next
    case False
    then show ?thesis using d w1 by (auto simp: is_file_iff)
  qed
qed

lemma load_ok_last_read:
  assumes "load_housing_data env w = (w1, Inr t)"
  shows "last (log w1) = Read csv_path"
proof -
  from load_ok_read [OF assms] obtain w' where r: "read_csv env csv_path w' = (w1, Inr t)"
    by blast
  then have "w1 = emit (Read csv_path) w'" by (rule read_csv_fst)
  then show ?thesis by simp
qed

lemma load_ok_again:
  assumes "load_housing_data env w = (w1, Inr t)"
  shows "snd (load_housing_data env w1) = Inr t"
proof -
  have f: "is_file w1 tarball_path" using assms by (rule load_ok_is_file)
  from load_ok_read [OF assms] obtain w' where r: "read_csv env csv_path w' = (w1, Inr t)"
    by blast
  then have "w1 = emit (Read csv_path) w'" by (rule read_csv_fst)
  then have "files w1 = files w'" by simp
  then have "snd (read_csv env csv_path w1) = snd (read_csv env csv_path w')"
    by (rule snd_read_csv_files)
  then show ?thesis using f r by (simp add: load_cache_hit)
qed

lemma load_hit_effects:
  assumes "is_file v tarball_path"
  shows "load_housing_data env v = read_csv env csv_path v"
    and "files (fst (load_housing_data env v)) = files v"
    and "log (fst (load_housing_data env v)) = log v @ [Read csv_path]"
    and "fetches (fst (load_housing_data env v)) = fetches v"
    and "extractions (fst (load_housing_data env v)) = extractions v"
  using assms
  by (simp_all add: load_cache_hit fetches_def extractions_def is_fetch_def is_extract_def)

text \<open>
  Claim C1. Whenever the cache file \<open>data/housing.tgz\<close> exists as a file, a call of
  \<open>load_housing_data\<close> is exactly the read of the table file at \<open>csv_path\<close>: the
  filesystem is unchanged, the only event is that read, and neither a fetch nor an
  extraction is performed. A call that returns a table (a fresh run included) ends by
  reading the same path \<open>csv_path\<close> and leaves the cache file in place, so the next
  call returns the same table, changes no file and performs no fetch and no extraction.
\<close>

theorem cache_hit_skips_network:
  "(is_file w tarball_path \<longrightarrow>
      load_housing_data env w = read_csv env csv_path w \<and>
      files (fst (load_housing_data env w)) = files w \<and>
      log (fst (load_housing_data env w)) = log w @ [Read csv_path] \<and>
      fetches (fst (load_housing_data env w)) = fetches w \<and>
      extractions (fst (load_housing_data env w)) = extractions w) \<and>
   (load_housing_data env w = (w1, Inr t) \<longrightarrow>
      last (log w1) = Read csv_path \<and>
      is_file w1 tarball_path \<and>
      snd (load_housing_data env w1) = Inr t \<and>
      files (fst (load_housing_data env w1)) = files w1 \<and>
      log (fst (load_housing_data env w1)) = log w1 @ [Read csv_path] \<and>
      fetches (fst (load_housing_data env w1)) = fetches w1 \<and>
      extractions (fst (load_housing_data env w1)) = extractions w1)"
proof (intro conjI impI)
  assume "is_file w tarball_path"
  note h = load_hit_effects [OF this, of env]
  show "load_housing_data env w = read_csv env csv_path w" by (rule h(1))
  show "files (fst (load_housing_data env w)) = files w" by (rule h(2))
  show "log (fst (load_housing_data env w)) = log w @ [Read csv_path]" by (rule h(3))
  show "fetches (fst (load_housing_data env w)) = fetches w" by (rule h(4))
  show "extractions (fst (load_housing_data env w)) = extractions w" by (rule h(5))
next
  assume ok: "load_housing_data env w = (w1, Inr t)"
  then show "last (log w1) = Read csv_path" by (rule load_ok_last_read)
  from ok show f: "is_file w1 tarball_path" by (rule load_ok_is_file)
  from ok show "snd (load_housing_data env w1) = Inr t" by (rule load_ok_again)
  note h = load_hit_effects [OF f, of env]
  show "files (fst (load_housing_data env w1)) = files w1" by (rule h(2))
  show "log (fst (load_housing_data env w1)) = log w1 @ [Read csv_path]" by (rule h(3))
  show "fetches (fst (load_housing_data env w1)) = fetches w1" by (rule h(4))
  show "extractions (fst (load_housing_data env w1)) = extractions w1" by (rule h(5))
qed

lemma absent_read:
  "files w p = None \<Longrightarrow>
   read_csv env p w =
     (emit (Read p) w,
      Inl (case barrier w (parents p) of None \<Rightarrow> FileNotFound | Some e \<Rightarrow> e))"
  by (simp add: read_csv_def Let_def split: option.splits)

text \<open>
  Claim C9, as amended. The cache test looks at the archive file, not at the table file:
  when the archive \<open>data/housing.tgz\<close> is a regular file and nothing exists at
  \<open>data/housing/housing.csv\<close>, the routine neither fetches nor extracts, leaves the
  filesystem as it is, and fails at the read of the table file. The error is the one
  that opening the missing path raises: \<open>FileNotFound\<close> when the directories above
  the table file are absent or are directories, \<open>NotADirectory\<close> when
  \<open>data/housing\<close> is a regular file, and a permission error (\<open>FilesystemError\<close>)
  when \<open>data/housing\<close> is a directory that may not be searched.
\<close>

theorem archive_present_table_missing:
  assumes "is_file w tarball_path" and "files w csv_path = None"
  shows "load_housing_data env w =
           (emit (Read csv_path) w,
            Inl (case barrier w (parents csv_path) of None \<Rightarrow> FileNotFound | Some e \<Rightarrow> e)) \<and>
         files (fst (load_housing_data env w)) = files w \<and>
         fetches (fst (load_housing_data env w)) = fetches w \<and>
         extractions (fst (load_housing_data env w)) = extractions w \<and>
         ((files w ''data'' = None \<or> files w ''data'' = Some Dir) \<and>
          (files w ''data/housing'' = None \<or> files w ''data/housing'' = Some Dir) \<longrightarrow>
            snd (load_housing_data env w) = Inl FileNotFound) \<and>
         ((files w ''data'' = None \<or> files w ''data'' = Some Dir) \<and>
          is_file w ''data/housing'' \<longrightarrow>
            snd (load_housing_data env w) = Inl NotADirectory) \<and>
         ((files w ''data'' = None \<or> files w ''data'' = Some Dir) \<and>
          files w ''data/housing'' = Some SealedDir \<longrightarrow>
            snd (load_housing_data env w) = Inl FilesystemError)"
proof -
  have l: "load_housing_data env w =
      (emit (Read csv_path) w,
       Inl (case barrier w (parents csv_path) of None \<Rightarrow> FileNotFound | Some e \<Rightarrow> e))"
    using assms by (simp add: load_cache_hit absent_read)
  have e: "fetches (emit (Read csv_path) w) = fetches w"
    "extractions (emit (Read csv_path) w) = extractions w"
    by (simp_all add: fetches_def extractions_def is_fetch_def is_extract_def)
  have a: "snd (load_housing_data env w) = Inl FileNotFound"
    if "(files w ''data'' = None \<or> files w ''data'' = Some Dir) \<and>
        (files w ''data/housing'' = None \<or> files w ''data/housing'' = Some Dir)"
    using that by (auto simp: l parents_csv)
  have b: "snd (load_housing_data env w) = Inl NotADirectory"
    if "(files w ''data'' = None \<or> files w ''data'' = Some Dir) \<and> is_file w ''data/housing''"
    using that by (auto simp: l parents_csv is_file_iff)
  have c: "snd (load_housing_data env w) = Inl FilesystemError"
    if "(files w ''data'' = None \<or> files w ''data'' = Some Dir) \<and>
        files w ''data/housing'' = Some SealedDir"
    using that by (auto simp: l parents_csv)
  show ?thesis
    using a b c e by (simp add: l)
qed

subsection \<open>Repeated calls and failures\<close>


lemma snd_read_csv_file:
  "files w p = Some (File x) \<Longrightarrow>
   snd (read_csv env p w) = (case parse env x of None \<Rightarrow> Inl ParseError | Some t \<Rightarrow> Inr t)"
  by (simp add: read_csv_def Let_def split: option.splits)


lemma mkdir_succeeds:
  assumes "files w p = Some Dir \<or> (files w p = None \<and> can_mkdir env p)"
  shows "mkdir env p w = ((emit (Mkdir p) w)\<lparr>files := (files w)(p \<mapsto> Dir)\<rparr>, Inr ())"
proof -
  have "files w p = Some Dir \<Longrightarrow> (files w)(p \<mapsto> Dir) = files w"
    by (simp add: fun_upd_idem_iff)
  then show ?thesis
    using assms by (auto simp: mkdir_def Let_def emit_def)
qed

lemma urlretrieve_complete:
  assumes "remote env u = Complete c" and "writable env (files w) p"
  shows "urlretrieve env u p w = ((emit (Fetch u p) w)\<lparr>files := (files w)(p \<mapsto> File c)\<rparr>, Inr ())"
  using assms by (simp add: urlretrieve_def Let_def)

lemma load_miss_steps:
  assumes "path_is_file w tarball_path = Inr False"
    and "mkdir env ''data'' w = (wa, Inr ())"
    and "urlretrieve env housing_url tarball_path wa = (wb, Inr ())"
  shows "load_housing_data env w =
     (case extractall env tarball_path ''data'' wb of
        (w3, Inl e) \<Rightarrow> (w3, Inl e)
      | (w3, Inr u3) \<Rightarrow> read_csv env csv_path w3)"
  using assms by (simp add: load_housing_data_def)

lemma load_fetch_fails:
  assumes "path_is_file w tarball_path = Inr False"
    and "mkdir env ''data'' w = (wa, Inr ())"
    and "urlretrieve env housing_url tarball_path wa = (wb, Inl e)"
  shows "load_housing_data env w = (wb, Inl e)"
  using assms by (simp add: load_housing_data_def)

lemma load_extract_fails:
  assumes "path_is_file w tarball_path = Inr False"
    and "mkdir env ''data'' w = (wa, Inr ())"
    and "urlretrieve env housing_url tarball_path wa = (wb, Inr ())"
    and "extractall env tarball_path ''data'' wb = (wc, Inl e)"
  shows "load_housing_data env w = (wc, Inl e)"
  using assms by (simp add: load_housing_data_def)

lemma extractall_fails:
  assumes "files w t = Some (File c)"
    and "untar env c = None \<or>
       (untar env c = Some ms \<and> (\<exists>(p, x) \<in> set ms. \<not> can_write env (d @ ''/'' @ p)))"
  shows "extractall env t d w =
           (fst (extractall env t d w), Inl ExtractionError)"
proof (cases "untar env c")
  case None
  then show ?thesis using assms(1) by (simp add: extractall_def Let_def)
next
  case (Some ms')
  then have "\<exists>(p, x) \<in> set ms'. \<not> can_write env (d @ ''/'' @ p)"
    using assms(2) by simp
  then have "snd (write_members env d ms' (files w)) = Inl ExtractionError"
    by (rule write_members_fails)
  then show ?thesis
    using assms(1) Some
    by (cases "write_members env d ms' (files w)") (simp add: extractall_def Let_def)
qed

text \<open>
  Claim C4. With no cache file present, a denied creation of the directory \<open>data\<close>
  makes the routine fail with \<open>FilesystemError\<close> after the \<open>Mkdir\<close> event alone; a
  fetch that cannot complete (the host is unreachable, or the body ends early) makes it
  fail with \<open>NetworkError\<close> after one \<open>Mkdir\<close> and one \<open>Fetch\<close> event; an
  archive that cannot be read, or a member that cannot be written, makes it fail with
  \<open>ExtractionError\<close> after one \<open>Mkdir\<close>, one \<open>Fetch\<close> and one \<open>Extract\<close>
  event. In each case the error is the result of the routine, and the log shows that no
  step was tried again and that none followed the failing one.
\<close>

theorem errors_propagate:
  assumes "files w tarball_path = None"
  shows
    "(files w ''data'' = None \<and> \<not> can_mkdir env ''data'' \<longrightarrow>
        load_housing_data env w = (emit (Mkdir ''data'') w, Inl FilesystemError)) \<and>
     ((files w ''data'' = Some Dir \<or> (files w ''data'' = None \<and> can_mkdir env ''data'')) \<and>
      (remote env housing_url = Unreachable \<or>
       (remote env housing_url = Truncated c \<and> can_write env tarball_path)) \<longrightarrow>
        snd (load_housing_data env w) = Inl NetworkError \<and>
        log (fst (load_housing_data env w)) =
          log w @ [Mkdir ''data'', Fetch housing_url tarball_path]) \<and>
     ((files w ''data'' = Some Dir \<or> (files w ''data'' = None \<and> can_mkdir env ''data'')) \<and>
      remote env housing_url = Complete c \<and> can_write env tarball_path \<and>
      (untar env c = None \<or>
       (untar env c = Some ms \<and> (\<exists>(p, x) \<in> set ms. \<not> can_write env (''data'' @ ''/'' @ p)))) \<longrightarrow>
        snd (load_housing_data env w) = Inl ExtractionError \<and>
        log (fst (load_housing_data env w)) =
          log w @ [Mkdir ''data'', Fetch housing_url tarball_path,
                   Extract tarball_path ''data''])"
proof (intro conjI impI)
  have miss: "path_is_file w tarball_path = Inr False"
    if "files w ''data'' = None \<or> files w ''data'' = Some Dir"
    using assms that by (intro absent_miss) auto
  {
    assume h: "files w ''data'' = None \<and> \<not> can_mkdir env ''data''"
    then have "path_is_file w tarball_path = Inr False"
      by (intro miss) simp
    then show "load_housing_data env w = (emit (Mkdir ''data'') w, Inl FilesystemError)"
      using h by (simp add: load_housing_data_def mkdir_def Let_def)
  }
  {
    assume h: "(files w ''data'' = Some Dir \<or> (files w ''data'' = None \<and> can_mkdir env ''data'')) \<and>
      (remote env housing_url = Unreachable \<or>
       (remote env housing_url = Truncated c \<and> can_write env tarball_path))"
    let ?wa = "(emit (Mkdir ''data'') w)\<lparr>files := (files w)(''data'' \<mapsto> Dir)\<rparr>"
    have d: "files w ''data'' = None \<or> files w ''data'' = Some Dir"
      using h by blast
    have a: "mkdir env ''data'' w = (?wa, Inr ())"
      using h by (intro mkdir_succeeds) blast
    have wr: "can_write env tarball_path \<Longrightarrow> writable env (files ?wa) tarball_path"
      using assms data_neq_tarball by (simp add: writable_def)
    have b: "urlretrieve env housing_url tarball_path ?wa =
               (emit (Fetch housing_url tarball_path) ?wa, Inl NetworkError) \<or>
             urlretrieve env housing_url tarball_path ?wa =
               ((emit (Fetch housing_url tarball_path) ?wa)
                  \<lparr>files := (files ?wa)(tarball_path \<mapsto> File c)\<rparr>, Inl NetworkError)"
      using h wr by (auto simp: urlretrieve_def Let_def)
    then obtain wb where wb: "urlretrieve env housing_url tarball_path ?wa = (wb, Inl NetworkError)"
      and lg: "log wb = log ?wa @ [Fetch housing_url tarball_path]"
      by auto
    have l: "load_housing_data env w = (wb, Inl NetworkError)"
      using miss [OF d] a wb by (rule load_fetch_fails)
    show "snd (load_housing_data env w) = Inl NetworkError"
      using l by simp
    show "log (fst (load_housing_data env w)) = log w @ [Mkdir ''data'', Fetch housing_url tarball_path]"
      using l lg by simp
  }
  {
    assume h: "(files w ''data'' = Some Dir \<or> (files w ''data'' = None \<and> can_mkdir env ''data'')) \<and>
      remote env housing_url = Complete c \<and> can_write env tarball_path \<and>
      (untar env c = None \<or>
       (untar env c = Some ms \<and> (\<exists>(p, x) \<in> set ms. \<not> can_write env (''data'' @ ''/'' @ p))))"
    let ?wa = "(emit (Mkdir ''data'') w)\<lparr>files := (files w)(''data'' \<mapsto> Dir)\<rparr>"
    let ?wb = "(emit (Fetch housing_url tarball_path) ?wa)\<lparr>files := (files ?wa)(tarball_path \<mapsto> File c)\<rparr>"
    have d: "files w ''data'' = None \<or> files w ''data'' = Some Dir"
      using h by blast
    have a: "mkdir env ''data'' w = (?wa, Inr ())"
      using h by (intro mkdir_succeeds) blast
    have wr: "writable env (files ?wa) tarball_path"
      using assms h data_neq_tarball by (simp add: writable_def)
    have b: "urlretrieve env housing_url tarball_path ?wa = (?wb, Inr ())"
      using h wr by (intro urlretrieve_complete) auto
    have "files ?wb tarball_path = Some (File c)" by simp
    then have e: "extractall env tarball_path ''data'' ?wb =
        (fst (extractall env tarball_path ''data'' ?wb), Inl ExtractionError)"
      using h by (intro extractall_fails [where c = c and ms = ms]) auto
    have l: "load_housing_data env w =
        (fst (extractall env tarball_path ''data'' ?wb), Inl ExtractionError)"
      using miss [OF d] a b e by (rule load_extract_fails)
    show "snd (load_housing_data env w) = Inl ExtractionError"
      using l by simp
    show "log (fst (load_housing_data env w)) =
          log w @ [Mkdir ''data'', Fetch housing_url tarball_path, Extract tarball_path ''data'']"
      using l by (simp add: log_extractall)
  }
qed

subsection \<open>Cache miss\<close>

lemma csv_path_split: "csv_path = ''data'' @ ''/'' @ ''housing/housing.csv''"
  by (simp add: csv_path_def)

lemma map_of_members:
  "map_of ms k = Some x \<Longrightarrow>
   map_of (map (\<lambda>(p, c). (d @ ''/'' @ p, File c)) ms) (d @ ''/'' @ k) = Some (File x)"
  by (induction ms) (auto split: if_splits)

lemma members_miss_dir:
  "map_of (rev (map (\<lambda>(p, c). (d @ ''/'' @ p, File c)) ms)) d = None"
  by (induction ms) (auto simp: map_of_eq_None_iff image_iff)

lemma extractall_succeeds:
  assumes "files w t = Some (File c)" and "untar env c = Some ms"
    and "\<forall>(p, x) \<in> set ms. can_write env (d @ ''/'' @ p) \<and> files w (d @ ''/'' @ p) \<noteq> Some Dir"
  shows "extractall env t d w =
     ((emit (Extract t d) w)
        \<lparr>files := files w ++ map_of (rev (map (\<lambda>(p, c). (d @ ''/'' @ p, File c)) ms))\<rparr>, Inr ())"
  using assms(1,2) write_members_ok [OF assms(3)]
  by (simp add: extractall_def Let_def)

lemma fresh_run_succeeds:
  assumes "files w tarball_path = None"
    and "files w ''data'' = Some Dir \<or> (files w ''data'' = None \<and> can_mkdir env ''data'')"
    and "remote env housing_url = Complete c"
    and "can_write env tarball_path"
    and "untar env c = Some ms"
    and "\<forall>(p, x) \<in> set ms.
           can_write env (''data'' @ ''/'' @ p) \<and> files w (''data'' @ ''/'' @ p) \<noteq> Some Dir"
  shows "files (fst (load_housing_data env w)) ''data'' = Some Dir \<and>
         log (fst (load_housing_data env w)) =
           log w @ [Mkdir ''data'', Fetch housing_url tarball_path,
                    Extract tarball_path ''data'', Read csv_path] \<and>
         fetches (fst (load_housing_data env w)) = fetches w + 1 \<and>
         extractions (fst (load_housing_data env w)) = extractions w + 1 \<and>
         is_file (fst (load_housing_data env w)) tarball_path \<and>
         snd (load_housing_data env w) =
           snd (read_csv env csv_path (fst (load_housing_data env w))) \<and>
         (\<forall>x. map_of (rev ms) ''housing/housing.csv'' = Some x \<longrightarrow>
            files (fst (load_housing_data env w)) csv_path = Some (File x) \<and>
            snd (load_housing_data env w) =
              (case parse env x of None \<Rightarrow> Inl ParseError | Some t \<Rightarrow> Inr t))"
proof -
  let ?f = "\<lambda>(p, c). (''data'' @ ''/'' @ p, File c)"
  let ?M = "map_of (rev (map ?f ms))"
  let ?wa = "(emit (Mkdir ''data'') w)\<lparr>files := (files w)(''data'' \<mapsto> Dir)\<rparr>"
  let ?wb = "(emit (Fetch housing_url tarball_path) ?wa)\<lparr>files := (files ?wa)(tarball_path \<mapsto> File c)\<rparr>"
  let ?wc = "(emit (Extract tarball_path ''data'') ?wb)\<lparr>files := files ?wb ++ ?M\<rparr>"
  let ?wd = "emit (Read csv_path) ?wc"
  have miss: "path_is_file w tarball_path = Inr False"
    using assms(1,2) by (intro absent_miss) auto
  have a: "mkdir env ''data'' w = (?wa, Inr ())"
    using assms(2) by (rule mkdir_succeeds)
  have "writable env (files ?wa) tarball_path"
    using assms(1,4) data_neq_tarball by (simp add: writable_def)
  with assms(3) have b: "urlretrieve env housing_url tarball_path ?wa = (?wb, Inr ())"
    by (rule urlretrieve_complete)
  have tb: "files ?wb tarball_path = Some (File c)" by simp
  have cond: "\<forall>(p, x) \<in> set ms. can_write env (''data'' @ ''/'' @ p) \<and>
          files ?wb (''data'' @ ''/'' @ p) \<noteq> Some Dir"
    using assms(6) by (fastforce split: if_splits)
  from tb assms(5) cond have e: "extractall env tarball_path ''data'' ?wb = (?wc, Inr ())"
    by (rule extractall_succeeds)
  have l: "load_housing_data env w = read_csv env csv_path ?wc"
    using load_miss_steps [OF miss a b] e by simp
  have w': "fst (load_housing_data env w) = ?wd"
    using l by (simp add: fst_read_csv)
  have r: "snd (load_housing_data env w) = snd (read_csv env csv_path ?wd)"
    unfolding l by (rule snd_read_csv_files) simp
  have d: "files ?wd ''data'' = Some Dir"
    using members_miss_dir [of "''data''" ms] data_neq_tarball
    by (simp add: map_add_def)
  have lg: "log ?wd = log w @ [Mkdir ''data'', Fetch housing_url tarball_path,
                    Extract tarball_path ''data'', Read csv_path]"
    by simp
  have "\<exists>c'. fst (write_members env ''data'' ms (files ?wb)) tarball_path = Some (File c')"
    using tb by (intro write_members_keeps_file) blast
  moreover have "files ?wc = files ?wb ++ ?M" by simp
  moreover have "write_members env ''data'' ms (files ?wb) = (files ?wb ++ ?M, Inr ())"
    by (rule write_members_ok [OF cond])
  ultimately have "\<exists>c'. files ?wc tarball_path = Some (File c')"
    by (simp only: fst_conv)
  then obtain c' where "files ?wc tarball_path = Some (File c')" ..
  then have "files ?wd tarball_path = Some (File c')"
    by (simp only: files_emit)
  then have t: "is_file ?wd tarball_path"
    by (rule is_file_File)
  have csv: "files ?wd csv_path = Some (File x) \<and>
      snd (load_housing_data env w) = (case parse env x of None \<Rightarrow> Inl ParseError | Some t \<Rightarrow> Inr t)"
    if "map_of (rev ms) ''housing/housing.csv'' = Some x" for x
  proof -
    have "map_of (map ?f (rev ms)) (''data'' @ ''/'' @ ''housing/housing.csv'') = Some (File x)"
      using that by (rule map_of_members)
    then have "?M csv_path = Some (File x)"
      by (simp only: csv_path_split rev_map)
    then have f: "files ?wd csv_path = Some (File x)"
      by (simp add: map_add_def)
    from snd_read_csv_file [OF f] f show ?thesis
      unfolding r by (intro conjI)
  qed
  show ?thesis
    unfolding w'
    using d lg t r csv fetches_log [OF lg] extractions_log [OF lg]
    by (simp add: is_fetch_def is_extract_def w')
qed

lemma mkdir_ok_dir:
  "mkdir env p w = (wa, Inr u) \<Longrightarrow> files w p \<noteq> Some SealedDir \<Longrightarrow> files wa p = Some Dir"
  by (auto simp: mkdir_def Let_def split: option.splits node.splits if_splits)

lemma files_urlretrieve_other:
  "q \<noteq> p \<Longrightarrow> files (fst (urlretrieve env u p w)) q = files w q"
  by (simp add: urlretrieve_def Let_def split: response.splits)

lemma write_members_dir: "fst (write_members env d ms fs) d = fs d"
  by (induction ms arbitrary: fs) auto

lemma files_extractall_dir: "files (fst (extractall env t d w)) d = files w d"
proof -
  have "fst (write_members env d ms (files w)) d = files w d" for ms
    by (rule write_members_dir)
  then show ?thesis
    by (auto simp: extractall_def Let_def split: option.splits node.splits prod.splits)
      (metis fst_conv)
qed

lemma read_csv_ok:
  "read_csv env p w = (w', Inr t) \<Longrightarrow> \<exists>x. files w p = Some (File x) \<and> parse env x = Some t"
  by (auto simp: read_csv_def Let_def split: option.splits node.splits)

lemma fresh_run_returned:
  assumes absent: "files w tarball_path = None"
    and ok: "load_housing_data env w = (w', Inr t)"
  shows "files w' ''data'' = Some Dir \<and>
         log w' = log w @ [Mkdir ''data'', Fetch housing_url tarball_path,
                           Extract tarball_path ''data'', Read csv_path] \<and>
         fetches w' = fetches w + 1 \<and>
         extractions w' = extractions w + 1 \<and>
         is_file w' tarball_path \<and>
         (\<exists>x. files w' csv_path = Some (File x) \<and> parse env x = Some t)"
proof -
  obtain hit where h: "path_is_file w tarball_path = Inr hit"
    using ok by (cases "path_is_file w tarball_path") (auto simp: load_denied)
  from absent_searched [OF absent h] have sd: "files w ''data'' \<noteq> Some SealedDir"
    and miss: "path_is_file w tarball_path = Inr False"
    using h by simp_all
  obtain wa ra where a: "mkdir env ''data'' w = (wa, ra)" by (cases "mkdir env ''data'' w")
  obtain wb rb where b: "urlretrieve env housing_url tarball_path wa = (wb, rb)"
    by (cases "urlretrieve env housing_url tarball_path wa")
  obtain wc rc where c: "extractall env tarball_path ''data'' wb = (wc, rc)"
    by (cases "extractall env tarball_path ''data'' wb")
  from ok miss a b c obtain u1 where ra: "ra = Inr u1"
    by (auto simp: load_housing_data_def split: sum.splits)
  from ok miss a b c ra obtain u2 where rb: "rb = Inr u2"
    by (auto simp: load_housing_data_def split: sum.splits)
  from ok miss a b c ra rb obtain u3 where rc: "rc = Inr u3"
    by (auto simp: load_housing_data_def split: sum.splits)
  from ok miss a b c ra rb rc have r: "read_csv env csv_path wc = (w', Inr t)"
    by (simp add: load_housing_data_def)
  have w': "w' = emit (Read csv_path) wc"
    using r by (rule read_csv_fst)
  have la: "log wa = log w @ [Mkdir ''data'']"
    using log_mkdir [of env "''data''" w] a by simp
  have lb: "log wb = log wa @ [Fetch housing_url tarball_path]"
    using log_urlretrieve [of env housing_url tarball_path wa] b by simp
  have lc: "log wc = log wb @ [Extract tarball_path ''data'']"
    using log_extractall [of env tarball_path "''data''" wb] c by simp
  have lg: "log w' = log w @ [Mkdir ''data'', Fetch housing_url tarball_path,
                           Extract tarball_path ''data'', Read csv_path]"
    by (simp add: w' la lb lc)
  have "files wa ''data'' = Some Dir"
    using a ra sd by (auto dest: mkdir_ok_dir)
  moreover have "files wb ''data'' = files wa ''data''"
    using files_urlretrieve_other [OF data_neq_tarball, of env housing_url wa] b by simp
  moreover have "files wc ''data'' = files wb ''data''"
    using files_extractall_dir [of env tarball_path "''data''" wb] c by simp
  ultimately have d: "files w' ''data'' = Some Dir"
    by (simp add: w')
  from read_csv_ok [OF r] have x: "\<exists>x. files w' csv_path = Some (File x) \<and> parse env x = Some t"
    by (simp add: w')
  from d lg load_ok_is_file [OF ok] x fetches_log [OF lg] extractions_log [OF lg]
  show ?thesis
    by (simp add: is_fetch_def is_extract_def)
qed

text \<open>
  Claim C2. Starting with nothing at the cache path:
  \<^item> whenever the call returns a table, \<open>data\<close> is a directory, the call has performed
    exactly one fetch of \<open>housing_url\<close> into \<open>tarball_path\<close> and exactly one
    extraction of it into \<open>data\<close> (the log has grown by \<open>Mkdir\<close>, \<open>Fetch\<close>,
    \<open>Extract\<close>, \<open>Read\<close>, in this order), the cache file exists, and the table is the
    parse of the file at \<open>csv_path\<close>;
  \<^item> when the directory \<open>data\<close> exists or can be created, the remote host delivers the
    complete archive, the cache path can be written, the archive can be read and each of
    its members can be written, the call does perform these steps, with the same effects,
    and answers with the read of the table file at \<open>csv_path\<close>; when the archive holds
    \<open>housing/housing.csv\<close>, that file is the extracted one and the answer is its
    parse.
\<close>

theorem fresh_run_fetches_once:
  assumes "files w tarball_path = None"
  shows
    "(load_housing_data env w = (w', Inr t) \<longrightarrow>
        files w' ''data'' = Some Dir \<and>
        log w' = log w @ [Mkdir ''data'', Fetch housing_url tarball_path,
                          Extract tarball_path ''data'', Read csv_path] \<and>
        fetches w' = fetches w + 1 \<and>
        extractions w' = extractions w + 1 \<and>
        is_file w' tarball_path \<and>
        (\<exists>x. files w' csv_path = Some (File x) \<and> parse env x = Some t)) \<and>
     ((files w ''data'' = Some Dir \<or> (files w ''data'' = None \<and> can_mkdir env ''data'')) \<and>
      remote env housing_url = Complete c \<and> can_write env tarball_path \<and>
      untar env c = Some ms \<and>
      (\<forall>(p, x) \<in> set ms.
         can_write env (''data'' @ ''/'' @ p) \<and> files w (''data'' @ ''/'' @ p) \<noteq> Some Dir) \<longrightarrow>
        files (fst (load_housing_data env w)) ''data'' = Some Dir \<and>
        log (fst (load_housing_data env w)) =
          log w @ [Mkdir ''data'', Fetch housing_url tarball_path,
                   Extract tarball_path ''data'', Read csv_path] \<and>
        fetches (fst (load_housing_data env w)) = fetches w + 1 \<and>
        extractions (fst (load_housing_data env w)) = extractions w + 1 \<and>
        is_file (fst (load_housing_data env w)) tarball_path \<and>
        snd (load_housing_data env w) =
          snd (read_csv env csv_path (fst (load_housing_data env w))) \<and>
        (\<forall>x. map_of (rev ms) ''housing/housing.csv'' = Some x \<longrightarrow>
           files (fst (load_housing_data env w)) csv_path = Some (File x) \<and>
           snd (load_housing_data env w) =
             (case parse env x of None \<Rightarrow> Inl ParseError | Some t \<Rightarrow> Inr t)))"
proof (rule conjI; rule impI)
  {
    assume "load_housing_data env w = (w', Inr t)"
    with assms show "files w' ''data'' = Some Dir \<and>
        log w' = log w @ [Mkdir ''data'', Fetch housing_url tarball_path,
                          Extract tarball_path ''data'', Read csv_path] \<and>
        fetches w' = fetches w + 1 \<and>
        extractions w' = extractions w + 1 \<and>
        is_file w' tarball_path \<and>
        (\<exists>x. files w' csv_path = Some (File x) \<and> parse env x = Some t)"
      by (rule fresh_run_returned)
  }
  {
    assume h: "(files w ''data'' = Some Dir \<or> (files w ''data'' = None \<and> can_mkdir env ''data'')) \<and>
      remote env housing_url = Complete c \<and> can_write env tarball_path \<and>
      untar env c = Some ms \<and>
      (\<forall>(p, x) \<in> set ms.
         can_write env (''data'' @ ''/'' @ p) \<and> files w (''data'' @ ''/'' @ p) \<noteq> Some Dir)"
    then have h2: "files w ''data'' = Some Dir \<or> (files w ''data'' = None \<and> can_mkdir env ''data'')"
      and h3: "remote env housing_url = Complete c"
      and h4: "can_write env tarball_path"
      and h5: "untar env c = Some ms"
      and h6: "\<forall>(p, x) \<in> set ms.
         can_write env (''data'' @ ''/'' @ p) \<and> files w (''data'' @ ''/'' @ p) \<noteq> Some Dir"
      by blast+
    show "files (fst (load_housing_data env w)) ''data'' = Some Dir \<and>
        log (fst (load_housing_data env w)) =
          log w @ [Mkdir ''data'', Fetch housing_url tarball_path,
                   Extract tarball_path ''data'', Read csv_path] \<and>
        fetches (fst (load_housing_data env w)) = fetches w + 1 \<and>
        extractions (fst (load_housing_data env w)) = extractions w + 1 \<and>
        is_file (fst (load_housing_data env w)) tarball_path \<and>
        snd (load_housing_data env w) =
          snd (read_csv env csv_path (fst (load_housing_data env w))) \<and>
        (\<forall>x. map_of (rev ms) ''housing/housing.csv'' = Some x \<longrightarrow>
           files (fst (load_housing_data env w)) csv_path = Some (File x) \<and>
           snd (load_housing_data env w) =
             (case parse env x of None \<Rightarrow> Inl ParseError | Some t \<Rightarrow> Inr t))"
      using assms h2 h3 h4 h5 h6 by (rule fresh_run_succeeds)
  }
qed

subsection \<open>The routine on example environments\<close>

lemmas run_defs =
  load_housing_data_def mkdir_def urlretrieve_def extractall_def read_csv_def Let_def emit_def
  is_file_def path_is_file_def parents_def writable_def blocked_world_def served_world_def
  demo_env_def flaky_env_def offline_env_def readonly_env_def
  corrupt_env_def fresh_world_def stale_world_def tarball_path_def
  csv_path_def housing_url_def fetches_def extractions_def is_fetch_def is_extract_def

lemma demo_fresh_result:
  "snd (load_housing_data demo_env fresh_world) = Inr ''longitude,latitude''"
  by (simp add: run_defs)

theorem cache_hit_skips_network_witness:
  "is_file stale_world tarball_path \<and>
   fetches (fst (load_housing_data demo_env stale_world)) = 0 \<and>
   extractions (fst (load_housing_data demo_env stale_world)) = 0 \<and>
   snd (load_housing_data demo_env fresh_world) = Inr ''longitude,latitude'' \<and>
   snd (load_housing_data demo_env (fst (load_housing_data demo_env fresh_world))) =
     Inr ''longitude,latitude'' \<and>
   fetches (fst (load_housing_data demo_env (fst (load_housing_data demo_env fresh_world)))) = 1"
proof -
  have h1: "is_file stale_world tarball_path"
    by (simp add: run_defs)
  have z: "fetches stale_world = 0" "extractions stale_world = 0"
    by (simp_all add: run_defs)
  have h2: "load_housing_data demo_env fresh_world =
      (fst (load_housing_data demo_env fresh_world), Inr ''longitude,latitude'')"
    using demo_fresh_result by (simp add: prod_eq_iff)
  have f1: "fetches (fst (load_housing_data demo_env fresh_world)) = 1"
    by (simp add: run_defs)
  note A = cache_hit_skips_network [of stale_world demo_env stale_world "''x''",
      THEN conjunct1, rule_format, OF h1]
  note B = cache_hit_skips_network [of fresh_world demo_env
      "fst (load_housing_data demo_env fresh_world)" "''longitude,latitude''",
      THEN conjunct2, rule_format, OF h2]
  have a1: "fetches (fst (load_housing_data demo_env stale_world)) = 0"
    using A [THEN conjunct2, THEN conjunct2, THEN conjunct2, THEN conjunct1] z(1)
    by (rule trans)
  have a2: "extractions (fst (load_housing_data demo_env stale_world)) = 0"
    using A [THEN conjunct2, THEN conjunct2, THEN conjunct2, THEN conjunct2] z(2)
    by (rule trans)
  have b1: "snd (load_housing_data demo_env
        (fst (load_housing_data demo_env fresh_world))) = Inr ''longitude,latitude''"
    by (rule B [THEN conjunct2, THEN conjunct2, THEN conjunct1])
  have b2: "fetches (fst (load_housing_data demo_env
        (fst (load_housing_data demo_env fresh_world)))) = 1"
    using B [THEN conjunct2, THEN conjunct2, THEN conjunct2, THEN conjunct2, THEN conjunct2,
        THEN conjunct1] f1
    by (rule trans)
  from h1 a1 a2 demo_fresh_result b1 b2 show ?thesis
    by (intro conjI)
qed

theorem archive_present_table_missing_witness:
  "is_file stale_world tarball_path \<and> files stale_world csv_path = None \<and>
   snd (load_housing_data demo_env stale_world) = Inl FileNotFound \<and>
   log (fst (load_housing_data demo_env stale_world)) = [Read ''data/housing/housing.csv''] \<and>
   fetches (fst (load_housing_data demo_env stale_world)) = 0 \<and>
   extractions (fst (load_housing_data demo_env stale_world)) = 0"
proof -
  have h1: "is_file stale_world tarball_path"
    by (simp add: run_defs)
  have h2: "files stale_world csv_path = None"
    by (simp add: run_defs)
  have l: "log stale_world = []" by (simp add: stale_world_def)
  have z: "fetches stale_world = 0" "extractions stale_world = 0"
    by (simp_all add: run_defs)
  have d: "(files stale_world ''data'' = None \<or> files stale_world ''data'' = Some Dir) \<and>
      (files stale_world ''data/housing'' = None \<or> files stale_world ''data/housing'' = Some Dir)"
    by (simp add: stale_world_def)
  note T = archive_present_table_missing [OF h1 h2, of demo_env]
  have "snd (load_housing_data demo_env stale_world) = Inl FileNotFound"
    using T d by blast
  moreover have "log (fst (load_housing_data demo_env stale_world)) =
      [Read ''data/housing/housing.csv'']"
    using T [THEN conjunct1] l by (simp add: csv_path_def)
  moreover have "fetches (fst (load_housing_data demo_env stale_world)) = 0"
    using T [THEN conjunct2, THEN conjunct2, THEN conjunct1] z(1) by (rule trans)
  moreover have "extractions (fst (load_housing_data demo_env stale_world)) = 0"
    using T [THEN conjunct2, THEN conjunct2, THEN conjunct2, THEN conjunct1] z(2)
    by (rule trans)
  ultimately show ?thesis
    using h1 h2 by (intro conjI)
qed

text \<open>
  The claim as first stated, a file-not-found error in every such state, fails where
  \<open>data/housing\<close> is a regular file: the archive is there, the table file is not, and
  the read raises \<open>NotADirectory\<close>.
\<close>

theorem archive_present_table_missing_counterexample:
  "is_file blocked_world tarball_path \<and> files blocked_world csv_path = None \<and>
   snd (load_housing_data demo_env blocked_world) = Inl NotADirectory \<and>
   snd (load_housing_data demo_env blocked_world) \<noteq> Inl FileNotFound"
  by (simp add: run_defs)

theorem fresh_run_fetches_once_witness:
  "files fresh_world tarball_path = None \<and>
   files (fst (load_housing_data demo_env fresh_world)) ''data'' = Some Dir \<and>
   log (fst (load_housing_data demo_env fresh_world)) =
     [Mkdir ''data'', Fetch housing_url tarball_path, Extract tarball_path ''data'',
      Read csv_path] \<and>
   fetches (fst (load_housing_data demo_env fresh_world)) = 1 \<and>
   extractions (fst (load_housing_data demo_env fresh_world)) = 1 \<and>
   is_file (fst (load_housing_data demo_env fresh_world)) tarball_path \<and>
   snd (load_housing_data demo_env fresh_world) = Inr ''longitude,latitude'' \<and>
   (\<exists>x. files (fst (load_housing_data demo_env fresh_world)) csv_path = Some (File x) \<and>
        parse demo_env x = Some ''longitude,latitude'')"
proof -
  have ok: "load_housing_data demo_env fresh_world =
      (fst (load_housing_data demo_env fresh_world), Inr ''longitude,latitude'')"
    using demo_fresh_result by (simp add: prod_eq_iff)
  note R = fresh_run_fetches_once [of fresh_world demo_env
      "fst (load_housing_data demo_env fresh_world)" "''longitude,latitude''" "[]" "[]"]
  have h1: "files fresh_world tarball_path = None"
    by (simp add: fresh_world_def)
  have h2: "files fresh_world ''data'' = Some Dir \<or>
      (files fresh_world ''data'' = None \<and> can_mkdir demo_env ''data'')"
    by (simp add: fresh_world_def demo_env_def)
  have h3: "remote demo_env housing_url = Complete ''tgz''"
    by (simp add: demo_env_def)
  have h4: "can_write demo_env tarball_path"
    by (simp add: demo_env_def)
  have h5: "untar demo_env ''tgz'' = Some [(''housing/housing.csv'', ''longitude,latitude'')]"
    by (simp add: demo_env_def)
  have h6: "\<forall>(p, x) \<in> set [(''housing/housing.csv'', ''longitude,latitude'')].
      can_write demo_env (''data'' @ ''/'' @ p) \<and>
      files fresh_world (''data'' @ ''/'' @ p) \<noteq> Some Dir"
    by (simp add: fresh_world_def demo_env_def)
  have z: "log fresh_world = []" "fetches fresh_world = 0" "extractions fresh_world = 0"
    by (simp_all add: fresh_world_def fetches_def extractions_def)
  have m: "map_of (rev [(''housing/housing.csv'', ''longitude,latitude'')])
      ''housing/housing.csv'' = Some ''longitude,latitude''"
    by simp
  have p: "(case parse demo_env ''longitude,latitude'' of None \<Rightarrow> Inl ParseError
      | Some t \<Rightarrow> Inr t) = Inr ''longitude,latitude''"
    by (simp add: demo_env_def)
  have h: "(files fresh_world ''data'' = Some Dir \<or>
        (files fresh_world ''data'' = None \<and> can_mkdir demo_env ''data'')) \<and>
      remote demo_env housing_url = Complete ''tgz'' \<and> can_write demo_env tarball_path \<and>
      untar demo_env ''tgz'' = Some [(''housing/housing.csv'', ''longitude,latitude'')] \<and>
      (\<forall>(p, x) \<in> set [(''housing/housing.csv'', ''longitude,latitude'')].
         can_write demo_env (''data'' @ ''/'' @ p) \<and>
         files fresh_world (''data'' @ ''/'' @ p) \<noteq> Some Dir)"
    using h2 h3 h4 h5 h6 by (intro conjI)
  note T = fresh_run_fetches_once [OF h1, of demo_env _ _ "''tgz''"
      "[(''housing/housing.csv'', ''longitude,latitude'')]", THEN conjunct2, rule_format, OF h]
  from T have "files (fst (load_housing_data demo_env fresh_world)) ''data'' = Some Dir"
    by (rule conjunct1)
  moreover from T have "log (fst (load_housing_data demo_env fresh_world)) =
     [Mkdir ''data'', Fetch housing_url tarball_path, Extract tarball_path ''data'',
      Read csv_path]"
    by (simp only: z append_Nil)
  moreover from T have "fetches (fst (load_housing_data demo_env fresh_world)) = 1"
    by (simp only: z add_0)
  moreover from T have "extractions (fst (load_housing_data demo_env fresh_world)) = 1"
    by (simp only: z add_0)
  moreover from T have "is_file (fst (load_housing_data demo_env fresh_world)) tarball_path"
    by blast
  moreover from T m have "snd (load_housing_data demo_env fresh_world) =
      (case parse demo_env ''longitude,latitude'' of None \<Rightarrow> Inl ParseError
      | Some t \<Rightarrow> Inr t)"
    by blast
  moreover have "\<exists>x. files (fst (load_housing_data demo_env fresh_world)) csv_path =
        Some (File x) \<and> parse demo_env x = Some ''longitude,latitude''"
    using R [OF h1, THEN conjunct1, rule_format, OF ok] by blast
  ultimately show ?thesis
    using h1 by (simp only: p)
qed



theorem errors_propagate_witness:
  "files fresh_world tarball_path = None \<and>
   snd (load_housing_data readonly_env fresh_world) = Inl FilesystemError \<and>
   log (fst (load_housing_data readonly_env fresh_world)) = [Mkdir ''data''] \<and>
   snd (load_housing_data offline_env fresh_world) = Inl NetworkError \<and>
   log (fst (load_housing_data offline_env fresh_world)) =
     [Mkdir ''data'', Fetch housing_url tarball_path] \<and>
   snd (load_housing_data corrupt_env fresh_world) = Inl ExtractionError \<and>
   log (fst (load_housing_data corrupt_env fresh_world)) =
     [Mkdir ''data'', Fetch housing_url tarball_path, Extract tarball_path ''data'']"
proof -
  have h: "files fresh_world tarball_path = None"
    by (simp add: fresh_world_def)
  have z: "log fresh_world = []"
    by (simp add: fresh_world_def)
  have a: "files fresh_world ''data'' = None \<and> \<not> can_mkdir readonly_env ''data''"
    by (simp add: fresh_world_def readonly_env_def demo_env_def)
  have b: "(files fresh_world ''data'' = Some Dir \<or>
        (files fresh_world ''data'' = None \<and> can_mkdir offline_env ''data'')) \<and>
      (remote offline_env housing_url = Unreachable \<or>
       (remote offline_env housing_url = Truncated [] \<and> can_write offline_env tarball_path))"
    by (simp add: fresh_world_def offline_env_def demo_env_def)
  have c: "(files fresh_world ''data'' = Some Dir \<or>
        (files fresh_world ''data'' = None \<and> can_mkdir corrupt_env ''data'')) \<and>
      remote corrupt_env housing_url = Complete ''tgz'' \<and> can_write corrupt_env tarball_path \<and>
      (untar corrupt_env ''tgz'' = None \<or>
       (untar corrupt_env ''tgz'' = Some [] \<and>
        (\<exists>(p, x) \<in> set []. \<not> can_write corrupt_env (''data'' @ ''/'' @ p))))"
    by (simp add: fresh_world_def corrupt_env_def demo_env_def)
  note A = errors_propagate [OF h, of readonly_env "[]" "[]", THEN conjunct1, rule_format, OF a]
  note B = errors_propagate [OF h, of offline_env "[]" "[]", THEN conjunct2, THEN conjunct1,
      rule_format, OF b]
  note C = errors_propagate [OF h, of corrupt_env "''tgz''" "[]", THEN conjunct2, THEN conjunct2,
      rule_format, OF c]
  have "snd (load_housing_data readonly_env fresh_world) = Inl FilesystemError"
    by (simp only: A snd_conv)
  moreover have "log (fst (load_housing_data readonly_env fresh_world)) = [Mkdir ''data'']"
    by (simp only: A fst_conv log_emit z append_Nil)
  moreover have "snd (load_housing_data offline_env fresh_world) = Inl NetworkError"
    by (rule B [THEN conjunct1])
  moreover have "log (fst (load_housing_data offline_env fresh_world)) =
     [Mkdir ''data'', Fetch housing_url tarball_path]"
    using B [THEN conjunct2] by (simp only: z append_Nil)
  moreover have "snd (load_housing_data corrupt_env fresh_world) = Inl ExtractionError"
    by (rule C [THEN conjunct1])
  moreover have "log (fst (load_housing_data corrupt_env fresh_world)) =
     [Mkdir ''data'', Fetch housing_url tarball_path, Extract tarball_path ''data'']"
    using C [THEN conjunct2] by (simp only: z append_Nil)
  ultimately show ?thesis
    using h by (intro conjI)
qed

section \<open>Properties of the attribute combinations\<close>

lemma getitem_setitem:
  "getitem (setitem df k col) j = (if j = k then Inr col else getitem df j)"
  by (simp add: getitem_def setitem_def update_conv')

lemma setitem_same:
  "getitem df k = Inr col \<Longrightarrow> setitem df k col = df"
  by (auto simp: getitem_def setitem_def split: option.splits intro: update_triv)

lemma ratio_feature_again:
  assumes "new \<noteq> a" and "new \<noteq> b"
    and "ratio_feature fdiv new a b df = Inr df'"
  shows "ratio_feature fdiv new a b df' = Inr df'"
proof -
  from assms(3) obtain xs ys where a: "getitem df a = Inr xs" and b: "getitem df b = Inr ys"
    and df': "df' = setitem df new (truediv fdiv xs ys)"
    by (auto simp: ratio_feature_def split: sum.splits)
  have "getitem df' a = Inr xs" "getitem df' b = Inr ys"
    using assms(1,2) a b by (simp_all add: df' getitem_setitem)
  moreover have "setitem df' new (truediv fdiv xs ys) = df'"
    by (rule setitem_same) (simp add: df' getitem_setitem)
  ultimately show ?thesis
    by (simp add: ratio_feature_def)
qed

lemma ratio_feature_keeps:
  assumes "ratio_feature fdiv new a b df = Inr df'" and "j \<noteq> new"
  shows "getitem df' j = getitem df j"
  using assms by (auto simp: ratio_feature_def getitem_setitem split: sum.splits)

lemma ratio_feature_value:
  assumes "ratio_feature fdiv new a b df = Inr df'"
  shows "\<exists>xs ys. getitem df a = Inr xs \<and> getitem df b = Inr ys \<and>
           getitem df' new = Inr (truediv fdiv xs ys)"
  using assms by (auto simp: ratio_feature_def getitem_setitem split: sum.splits)

lemma ratio_feature_unchanged:
  assumes "ratio_feature fdiv new a b df = Inr df"
    and "ratio_feature fdiv new' a' b' df = Inr df'"
    and "new \<noteq> new'" and "a \<noteq> new'" and "b \<noteq> new'"
  shows "ratio_feature fdiv new a b df' = Inr df'"
proof -
  from assms(1) obtain xs ys where a: "getitem df a = Inr xs" and b: "getitem df b = Inr ys"
    and eq: "setitem df new (truediv fdiv xs ys) = df"
    by (auto simp: ratio_feature_def split: sum.splits)
  have n: "getitem df new = Inr (truediv fdiv xs ys)"
    using getitem_setitem [of df new "truediv fdiv xs ys" new] by (simp add: eq)
  have "getitem df' a = Inr xs" "getitem df' b = Inr ys" "getitem df' new = Inr (truediv fdiv xs ys)"
    using ratio_feature_keeps [OF assms(2)] assms(3,4,5) a b n by simp_all
  then show ?thesis
    by (simp add: ratio_feature_def setitem_same)
qed

text \<open>
  Claim C8. Running the three ratio assignments on a table they have already been run on
  changes nothing: the table is the same, column for column. The three derived columns
  are the row-wise quotients of the base columns of the original table, which the
  assignments leave as they were.
\<close>

theorem ratio_features_idempotent:
  assumes "attribute_combinations fdiv housing = Inr h"
  shows "attribute_combinations fdiv h = Inr h \<and>
     (\<exists>rooms households bedrooms population.
        getitem housing ''total_rooms'' = Inr rooms \<and>
        getitem housing ''households'' = Inr households \<and>
        getitem housing ''total_bedrooms'' = Inr bedrooms \<and>
        getitem housing ''population'' = Inr population \<and>
        getitem h ''rooms_per_house'' = Inr (truediv fdiv rooms households) \<and>
        getitem h ''bedrooms_ratio'' = Inr (truediv fdiv bedrooms rooms) \<and>
        getitem h ''people_per_house'' = Inr (truediv fdiv population households))"
proof -
  from assms obtain h1 h2 where
    s1: "ratio_feature fdiv ''rooms_per_house'' ''total_rooms'' ''households'' housing = Inr h1" and
    s2: "ratio_feature fdiv ''bedrooms_ratio'' ''total_bedrooms'' ''total_rooms'' h1 = Inr h2" and
    s3: "ratio_feature fdiv ''people_per_house'' ''population'' ''households'' h2 = Inr h"
    by (auto simp: attribute_combinations_def split: sum.splits)
  have r1: "ratio_feature fdiv ''rooms_per_house'' ''total_rooms'' ''households'' h1 = Inr h1"
    using s1 by (intro ratio_feature_again) simp_all
  have r1': "ratio_feature fdiv ''rooms_per_house'' ''total_rooms'' ''households'' h2 = Inr h2"
    using r1 s2 by (rule ratio_feature_unchanged) simp_all
  have r1'': "ratio_feature fdiv ''rooms_per_house'' ''total_rooms'' ''households'' h = Inr h"
    using r1' s3 by (rule ratio_feature_unchanged) simp_all
  have r2: "ratio_feature fdiv ''bedrooms_ratio'' ''total_bedrooms'' ''total_rooms'' h2 = Inr h2"
    using s2 by (intro ratio_feature_again) simp_all
  have r2': "ratio_feature fdiv ''bedrooms_ratio'' ''total_bedrooms'' ''total_rooms'' h = Inr h"
    using r2 s3 by (rule ratio_feature_unchanged) simp_all
  have r3: "ratio_feature fdiv ''people_per_house'' ''population'' ''households'' h = Inr h"
    using s3 by (intro ratio_feature_again) simp_all
  have again: "attribute_combinations fdiv h = Inr h"
    by (simp add: attribute_combinations_def r1'' r2' r3)
  from ratio_feature_value [OF s1] obtain rooms households where
    v1: "getitem housing ''total_rooms'' = Inr rooms"
      "getitem housing ''households'' = Inr households"
      "getitem h1 ''rooms_per_house'' = Inr (truediv fdiv rooms households)"
    by blast
  from ratio_feature_value [OF s2] obtain bedrooms rooms' where
    v2: "getitem h1 ''total_bedrooms'' = Inr bedrooms"
      "getitem h1 ''total_rooms'' = Inr rooms'"
      "getitem h2 ''bedrooms_ratio'' = Inr (truediv fdiv bedrooms rooms')"
    by blast
  from ratio_feature_value [OF s3] obtain population households' where
    v3: "getitem h2 ''population'' = Inr population"
      "getitem h2 ''households'' = Inr households'"
      "getitem h ''people_per_house'' = Inr (truediv fdiv population households')"
    by blast
  note k1 = ratio_feature_keeps [OF s1]
  note k2 = ratio_feature_keeps [OF s2]
  note k3 = ratio_feature_keeps [OF s3]
  have "rooms' = rooms" using v2(2) v1(1) by (simp add: k1)
  moreover have "households' = households" using v3(2) v1(2) by (simp add: k1 k2)
  moreover have "getitem housing ''total_bedrooms'' = Inr bedrooms" using v2(1) by (simp add: k1)
  moreover have "getitem housing ''population'' = Inr population" using v3(1) by (simp add: k1 k2)
  moreover have "getitem h ''rooms_per_house'' = Inr (truediv fdiv rooms households)"
    using v1(3) by (simp add: k2 k3)
  moreover have "getitem h ''bedrooms_ratio'' = Inr (truediv fdiv bedrooms rooms')"
    using v2(3) by (simp add: k3)
  ultimately show ?thesis
    using again v1(1,2) v3(3) by auto
qed

lemmas frame_defs =
  attribute_combinations_def ratio_feature_def getitem_def setitem_def truediv_def
  sample_housing_def

theorem ratio_features_idempotent_witness:
  "attribute_combinations (/) sample_housing =
     Inr (sample_housing @
       [(''rooms_per_house'', [880 / 126, 7099 / 1138]),
        (''bedrooms_ratio'', [129 / 880, 1106 / 7099]),
        (''people_per_house'', [322 / 126, 2401 / 1138])]) \<and>
   attribute_combinations (/)
     (sample_housing @
       [(''rooms_per_house'', [880 / 126, 7099 / 1138]),
        (''bedrooms_ratio'', [129 / 880, 1106 / 7099]),
        (''people_per_house'', [322 / 126, 2401 / 1138])]) =
     Inr (sample_housing @
       [(''rooms_per_house'', [880 / 126, 7099 / 1138]),
        (''bedrooms_ratio'', [129 / 880, 1106 / 7099]),
        (''people_per_house'', [322 / 126, 2401 / 1138])])"
proof -
  have h: "attribute_combinations (/) sample_housing =
     Inr (sample_housing @
       [(''rooms_per_house'', [880 / 126, 7099 / 1138]),
        (''bedrooms_ratio'', [129 / 880, 1106 / 7099]),
        (''people_per_house'', [322 / 126, 2401 / 1138])])"
    by (simp add: frame_defs)
  have "attribute_combinations (/)
     (sample_housing @
       [(''rooms_per_house'', [880 / 126, 7099 / 1138]),
        (''bedrooms_ratio'', [129 / 880, 1106 / 7099]),
        (''people_per_house'', [322 / 126, 2401 / 1138])]) =
     Inr (sample_housing @
       [(''rooms_per_house'', [880 / 126, 7099 / 1138]),
        (''bedrooms_ratio'', [129 / 880, 1106 / 7099]),
        (''people_per_house'', [322 / 126, 2401 / 1138])])"
    using ratio_features_idempotent [OF h] by (rule conjunct1)
  with h show ?thesis by (rule conjI)
qed

section \<open>Properties of the one-hot encoding\<close>

lemma position_Some_iff: "(\<exists>i. position cats v = Some i) \<longleftrightarrow> v \<in> set cats"
  by (induction cats) auto

lemma position_bound: "position cats v = Some i \<Longrightarrow> i < length cats \<and> cats ! i = v"
  by (induction cats arbitrary: i) (auto split: if_splits)

lemma position_first: "position cats v = Some i \<Longrightarrow> j < i \<Longrightarrow> cats ! j \<noteq> v"
proof (induction cats arbitrary: i j)
  case Nil
  then show ?case by simp
next
  case (Cons c cs)
  then show ?case
    by (cases j) (auto split: if_splits)
qed

lemma count_unit: "i < n \<Longrightarrow> count_list ((replicate n (0::nat))[i := 1]) 1 = 1"
proof (induction n arbitrary: i)
  case 0
  then show ?case by simp
next
  case (Suc n)
  show ?case
  proof (cases i)
    case 0
    have "count_list (replicate n (0::nat)) 1 = 0"
      by (induction n) auto
    then show ?thesis using 0 by simp
  next
    case (Suc k)
    then show ?thesis using Suc.IH [of k] Suc.prems by simp
  qed
qed

lemma decode_unit:
  "i < length cats \<Longrightarrow> decode cats ((replicate (length cats) 0)[i := 1]) = Some (cats ! i)"
proof (induction cats arbitrary: i)
  case Nil
  then show ?case by simp
next
  case (Cons c cs)
  then show ?case by (cases i) auto
qed

lemma one_hot_props:
  assumes "v \<in> set cats"
  shows "\<exists>r. one_hot cats v = Inr r \<and> length r = length cats \<and> set r \<subseteq> {0, 1} \<and>
           count_list r 1 = 1 \<and> decode cats r = Some v"
proof -
  from assms obtain i where i: "position cats v = Some i"
    using position_Some_iff by blast
  then have b: "i < length cats" "cats ! i = v"
    using position_bound by blast+
  let ?r = "(replicate (length cats) (0::nat))[i := 1]"
  have "set ?r \<subseteq> {0, 1}"
    using set_update_subset_insert [of "replicate (length cats) (0::nat)" i 1] by auto
  then show ?thesis
    using i b count_unit [OF b(1)] decode_unit [OF b(1)]
    by (simp add: one_hot_def)
qed

text \<open>
  Claim C5. Over a category list without repetition that holds every value of the
  column, the encoding succeeds with one row per row of the column; each row has one
  entry per distinct category, every entry is 0 or 1, exactly one entry is 1, and
  decoding each row (the category of the column that holds the 1) gives the column back.
\<close>

theorem one_hot_roundtrip:
  assumes "distinct cats" and "set column \<subseteq> set cats"
  shows "\<exists>rows. encode_onehot column cats = Inr rows \<and>
           length rows = length column \<and>
           (\<forall>r \<in> set rows.
              length r = card (set cats) \<and> set r \<subseteq> {0, 1} \<and> count_list r 1 = 1) \<and>
           map (decode cats) rows = map Some column"
  using assms(2)
proof (induction column)
  case Nil
  then show ?case by simp
next
  case (Cons v vs)
  then obtain rows where rows: "encode_onehot vs cats = Inr rows"
    "length rows = length vs"
    "\<forall>r \<in> set rows. length r = card (set cats) \<and> set r \<subseteq> {0, 1} \<and> count_list r 1 = 1"
    "map (decode cats) rows = map Some vs"
    by auto
  from Cons.prems have "v \<in> set cats" by simp
  from one_hot_props [OF this] obtain r where r: "one_hot cats v = Inr r"
    "length r = length cats" "set r \<subseteq> {0, 1}" "count_list r 1 = 1" "decode cats r = Some v"
    by blast
  have "length r = card (set cats)"
    using r(2) assms(1) by (simp add: distinct_card)
  then show ?case
    using rows r by simp
qed

lemma fit_props: "distinct (fit column) \<and> set (fit column) = set column \<and> sorted (fit column)"
  by (simp add: fit_def)

text \<open>
  Claim C6. The categories of \<open>["red", "blue", "green", "red"]\<close> in alphabetical order
  are \<open>["blue", "green", "red"]\<close>, and the one-hot encoding of that column over these
  categories is the rows \<open>[0,0,1]\<close>, \<open>[1,0,0]\<close>, \<open>[0,1,0]\<close>, \<open>[0,0,1]\<close>, in this
  order.
\<close>

theorem one_hot_scenario:
  "fit [''red'', ''blue'', ''green'', ''red''] = [''blue'', ''green'', ''red''] \<and>
   encode_onehot [''red'', ''blue'', ''green'', ''red''] [''blue'', ''green'', ''red''] =
     Inr [ [0, 0, 1], [1, 0, 0], [0, 1, 0], [0, 0, 1]] \<and>
   fit_transform [''red'', ''blue'', ''green'', ''red''] =
     Inr [ [0, 0, 1], [1, 0, 0], [0, 1, 0], [0, 0, 1]]"
  by code_simp

theorem one_hot_roundtrip_witness:
  "distinct [''Blue'', ''Green'', ''Orange''] \<and>
   set [''Orange'', ''Blue'', ''Orange'', ''Green''] \<subseteq> set [''Blue'', ''Green'', ''Orange''] \<and>
   encode_onehot [''Orange'', ''Blue'', ''Orange'', ''Green''] [''Blue'', ''Green'', ''Orange''] =
     Inr [ [0, 0, 1], [1, 0, 0], [0, 0, 1], [0, 1, 0]] \<and>
   map (decode [''Blue'', ''Green'', ''Orange''])
     [ [0, 0, 1], [1, 0, 0], [0, 0, 1], [0, 1, 0]] =
     map Some [''Orange'', ''Blue'', ''Orange'', ''Green'']"
proof -
  have h1: "distinct [''Blue'', ''Green'', ''Orange'']"
    by simp
  have h2: "set [''Orange'', ''Blue'', ''Orange'', ''Green''] \<subseteq> set [''Blue'', ''Green'', ''Orange'']"
    by simp
  have e: "encode_onehot [''Orange'', ''Blue'', ''Orange'', ''Green'']
      [''Blue'', ''Green'', ''Orange''] = Inr [ [0, 0, 1], [1, 0, 0], [0, 0, 1], [0, 1, 0]]"
    by code_simp
  from one_hot_roundtrip [OF h1 h2] obtain rows where
    r: "encode_onehot [''Orange'', ''Blue'', ''Orange'', ''Green'']
          [''Blue'', ''Green'', ''Orange''] = Inr rows"
    and d: "map (decode [''Blue'', ''Green'', ''Orange'']) rows =
          map Some [''Orange'', ''Blue'', ''Orange'', ''Green'']"
    by blast
  from r e have "rows = [ [0, 0, 1], [1, 0, 0], [0, 0, 1], [0, 1, 0]]"
    by simp
  with d have "map (decode [''Blue'', ''Green'', ''Orange''])
     [ [0, 0, 1], [1, 0, 0], [0, 0, 1], [0, 1, 0]] =
     map Some [''Orange'', ''Blue'', ''Orange'', ''Green'']"
    by simp
  with h1 h2 e show ?thesis
    by (intro conjI)
qed

section \<open>The one-hot demonstration cell never completes\<close>

lemma exec_quiet:
  "exec (\<lambda>j. False) ns j ss = None \<Longrightarrow>
   exec raises ns j' ss = None \<or> exec raises ns j' ss = Some LibraryError"
proof (induction ss arbitrary: j j')
  case Nil
  then show ?case by simp
next
  case (Cons s ss)
  show ?case
  proof (cases s)
    case (Load n)
    with Cons.prems have "n \<in> ns" and "exec (\<lambda>j. False) ns (Suc j) ss = None"
      by (simp_all split: if_splits)
    with Cons.IH [of "Suc j" "Suc j'"] Load show ?thesis by simp
  next
    case Op
    with Cons.prems have "exec (\<lambda>j. False) ns (Suc j) ss = None"
      by simp
    with Cons.IH [of "Suc j" "Suc j'"] Op show ?thesis by simp
  qed
qed

lemma exec_silent:
  "\<forall>j. \<not> raises j \<Longrightarrow> exec raises ns j ss = exec (\<lambda>j. False) ns j' ss"
proof (induction ss arbitrary: j j')
  case Nil
  then show ?case by simp
next
  case (Cons s ss)
  then show ?case by (cases s) auto
qed

text \<open>A cell in which every name is bound before it is loaded either completes or stops
  at an exception of a library.\<close>

lemma run_quiet:
  assumes "run (\<lambda>i j. False) i ns ss = (ns', length ss, None)"
  shows "run lib i' ns ss = (ns', length ss, None) \<or>
         (\<exists>ns'' k. k < length ss \<and> run lib i' ns ss = (ns'', k, Some LibraryError))"
  using assms
proof (induction ss arbitrary: i i' ns)
  case Nil
  then show ?case by simp
next
  case (Cons s ss)
  obtain ns1 k1 r1 where r: "run (\<lambda>i j. False) (Suc i) (ns \<union> set (binds s)) ss = (ns1, k1, r1)"
    by (cases "run (\<lambda>i j. False) (Suc i) (ns \<union> set (binds s)) ss")
  from Cons.prems r have q: "exec (\<lambda>j. False) ns 0 (steps s) = None"
    and e: "ns1 = ns'" "k1 = length ss" "r1 = None"
    by (auto split: option.splits)
  have "exec (lib i') ns 0 (steps s) = None \<or>
      exec (lib i') ns 0 (steps s) = Some LibraryError"
    using q by (rule exec_quiet)
  then show ?case
  proof (elim disjE)
    assume 1: "exec (lib i') ns 0 (steps s) = None"
    from Cons.IH [of "Suc i" "ns \<union> set (binds s)" "Suc i'"] r e
    have "run lib (Suc i') (ns \<union> set (binds s)) ss = (ns', length ss, None) \<or>
      (\<exists>ns'' k. k < length ss \<and>
         run lib (Suc i') (ns \<union> set (binds s)) ss = (ns'', k, Some LibraryError))"
      by simp
    then show ?thesis using 1 by auto
  next
    assume "exec (lib i') ns 0 (steps s) = Some LibraryError"
    then show ?thesis by auto
  qed
qed

lemma run_silent:
  "\<forall>i' j. i \<le> i' \<and> i' < i + length ss \<longrightarrow> \<not> lib i' j \<Longrightarrow>
   run lib i ns ss = run (\<lambda>i j. False) i ns ss"
proof (induction ss arbitrary: i ns)
  case Nil
  then show ?case by simp
next
  case (Cons s ss)
  have "\<forall>j. \<not> lib i j" using Cons.prems by simp
  then have e: "exec (lib i) ns 0 (steps s) = exec (\<lambda>j. False) ns 0 (steps s)"
    by (rule exec_silent)
  have "run lib (Suc i) (ns \<union> set (binds s)) ss =
      run (\<lambda>i j. False) (Suc i) (ns \<union> set (binds s)) ss"
    using Cons.prems by (intro Cons.IH) auto
  then show ?case using e by (simp split: option.splits)
qed

lemma run_append:
  "run lib i ns ss = (ns', length ss, None) \<Longrightarrow>
   run lib i ns (ss @ rest) =
     (case run lib (i + length ss) ns' rest of (ns'', k', r) \<Rightarrow> (ns'', length ss + k', r))"
proof (induction ss arbitrary: i ns)
  case Nil
  then show ?case by simp
next
  case (Cons s ss)
  show ?case
  proof (cases "exec (lib i) ns 0 (steps s)")
    case (Some e)
    then show ?thesis using Cons.prems by simp
  next
    case None
    obtain ns1 k1 r1 where r: "run lib (Suc i) (ns \<union> set (binds s)) ss = (ns1, k1, r1)"
      by (cases "run lib (Suc i) (ns \<union> set (binds s)) ss")
    with Cons.prems None have e: "ns1 = ns'" "k1 = length ss" "r1 = None"
      by simp_all
    from Cons.IH [of "Suc i" "ns \<union> set (binds s)"] r e
    have "run lib (Suc i) (ns \<union> set (binds s)) (ss @ rest) =
        (case run lib (Suc i + length ss) ns' rest of
           (ns'', k', r) \<Rightarrow> (ns'', length ss + k', r))"
      by simp
    then show ?thesis
      using None by (simp split: prod.splits)
  qed
qed

lemma run_stopped:
  "run lib i ns ss = (ns', k, Some e) \<Longrightarrow> run lib i ns (ss @ rest) = (ns', k, Some e)"
proof (induction ss arbitrary: i ns k)
  case Nil
  then show ?case by simp
next
  case (Cons s ss)
  show ?case
  proof (cases "exec (lib i) ns 0 (steps s)")
    case (Some e')
    then show ?thesis using Cons.prems by simp
  next
    case None
    obtain ns1 k1 r1 where r: "run lib (Suc i) (ns \<union> set (binds s)) ss = (ns1, k1, r1)"
      by (cases "run lib (Suc i) (ns \<union> set (binds s)) ss")
    with Cons.prems None have e: "ns1 = ns'" "k = Suc k1" "r1 = Some e"
      by simp_all
    from Cons.IH [of "Suc i" "ns \<union> set (binds s)" k1] r e
    have "run lib (Suc i) (ns \<union> set (binds s)) (ss @ rest) = (ns', k1, Some e)"
      by simp
    then show ?thesis
      using None e by simp
  qed
qed

lemma run_keeps_unbound:
  "n \<notin> ns \<Longrightarrow> n \<notin> set (concat (map binds ss)) \<Longrightarrow> n \<notin> fst (run lib i ns ss)"
proof (induction ss arbitrary: i ns)
  case Nil
  then show ?case by simp
next
  case (Cons s ss)
  show ?case
  proof (cases "exec (lib i) ns 0 (steps s)")
    case (Some e)
    then show ?thesis using Cons.prems by simp
  next
    case None
    have "n \<notin> fst (run lib (Suc i) (ns \<union> set (binds s)) ss)"
      using Cons.prems by (intro Cons.IH) auto
    then show ?thesis
      using None by (cases "run lib (Suc i) (ns \<union> set (binds s)) ss") simp
  qed
qed

lemma label_encoder_unbound: "''LabelEncoder'' \<notin> notebook_names"
  by (simp add: notebook_names_def ordinal_cell_def onehot_cell_def onehot_prefix_def
      onehot_rest_def sparse_cell_def columns_cell_def)

lemma length_onehot_prefix: "length onehot_prefix = 18"
  by (simp add: onehot_prefix_def)

lemma run_onehot_prefix:
  "run (\<lambda>i j. False) 0 ns onehot_prefix =
     (ns \<union> set (concat (map binds onehot_prefix)), length onehot_prefix, None)"
  by (auto simp: onehot_prefix_def)

lemma run_onehot_rest:
  "''LabelEncoder'' \<notin> ns \<Longrightarrow>
   run lib i ns onehot_rest = (ns, 0, Some (NameError ''LabelEncoder''))"
  by (simp add: onehot_rest_def)

text \<open>
  Claim C10, as amended. No statement of the notebook binds \<open>LabelEncoder\<close>. In every
  kernel namespace that does not bind \<open>LabelEncoder\<close>, and whatever the libraries do,
  the one-hot demonstration cell never completes: it stops with an exception after at
  most 18 statements. When it has completed 18 statements, the exception is the
  \<^verbatim>\<open>NameError\<close> for \<open>LabelEncoder\<close> at the 19th, \<^verbatim>\<open>le1 = LabelEncoder()\<close>; when it has
  completed fewer, the exception is one that a library operation of an earlier
  statement raised. If no library operation of the first 18 statements raises, the cell
  does reach the 19th statement and the \<^verbatim>\<open>NameError\<close>. In each case none of the
  statements completed loads \<open>KMeans\<close>, so the clustering comparison has not run, and
  running the first, the second or the third cell leaves \<open>LabelEncoder\<close> unbound.
\<close>

theorem onehot_cell_raises_name_error:
  assumes "''LabelEncoder'' \<notin> ns"
  shows "''LabelEncoder'' \<notin> notebook_names \<and>
         (\<exists>ns' k e. run lib 0 ns onehot_cell = (ns', k, Some e) \<and> k \<le> 18 \<and>
            (k = 18 \<longrightarrow> e = NameError ''LabelEncoder'') \<and>
            (k < 18 \<longrightarrow> e = LibraryError) \<and>
            ''LabelEncoder'' \<notin> ns') \<and>
         ((\<forall>i j. i < 18 \<longrightarrow> \<not> lib i j) \<longrightarrow>
            run lib 0 ns onehot_cell =
              (ns \<union> set (concat (map binds onehot_prefix)), 18,
               Some (NameError ''LabelEncoder''))) \<and>
         onehot_cell ! 18 = Stmt [Load ''LabelEncoder'', Op] [''le1''] \<and>
         (\<forall>s \<in> set (take 18 onehot_cell). Load ''KMeans'' \<notin> set (steps s)) \<and>
         (\<forall>c \<in> {ordinal_cell, onehot_cell, sparse_cell}.
            ''LabelEncoder'' \<notin> fst (run lib 0 ns c))"
proof -
  let ?B = "set (concat (map binds onehot_prefix))"
  let ?LE = "''LabelEncoder''"
  note l = length_onehot_prefix
  have free: "?LE \<notin> ?B"
    by (simp add: onehot_prefix_def)
  have u: "?LE \<notin> ns \<union> ?B"
    using assms free by simp
  have full: "run lib 0 ns onehot_cell = (ns \<union> ?B, 18, Some (NameError ?LE))"
    if p: "run lib 0 ns onehot_prefix = (ns \<union> ?B, length onehot_prefix, None)"
  proof -
    have a: "run lib 0 ns (onehot_prefix @ onehot_rest) =
        (case run lib (0 + length onehot_prefix) (ns \<union> ?B) onehot_rest of
           (ns'', k', r) \<Rightarrow> (ns'', length onehot_prefix + k', r))"
      using p by (rule run_append)
    have b: "run lib (0 + length onehot_prefix) (ns \<union> ?B) onehot_rest =
        (ns \<union> ?B, 0, Some (NameError ?LE))"
      using u by (rule run_onehot_rest)
    show ?thesis
      by (simp only: onehot_cell_def a b [unfolded l] prod.case l add_0_right)
  qed
  have stop: "\<exists>ns' k e. run lib 0 ns onehot_cell = (ns', k, Some e) \<and> k \<le> 18 \<and>
            (k = 18 \<longrightarrow> e = NameError ?LE) \<and> (k < 18 \<longrightarrow> e = LibraryError) \<and> ?LE \<notin> ns'"
  proof -
    from run_quiet [OF run_onehot_prefix, of lib 0 ns]
    have "run lib 0 ns onehot_prefix = (ns \<union> ?B, length onehot_prefix, None) \<or>
      (\<exists>ns'' k. k < length onehot_prefix \<and>
         run lib 0 ns onehot_prefix = (ns'', k, Some LibraryError))" .
    then show ?thesis
    proof (elim disjE exE conjE)
      assume "run lib 0 ns onehot_prefix = (ns \<union> ?B, length onehot_prefix, None)"
      then have "run lib 0 ns onehot_cell = (ns \<union> ?B, 18, Some (NameError ?LE))"
        by (rule full)
      then show ?thesis using u by simp
    next
      fix ns'' k
      assume k: "k < length onehot_prefix"
        and r: "run lib 0 ns onehot_prefix = (ns'', k, Some LibraryError)"
      have "?LE \<notin> fst (run lib 0 ns onehot_prefix)"
        using assms free by (rule run_keeps_unbound)
      then have n: "?LE \<notin> ns''" using r by simp
      have "run lib 0 ns (onehot_prefix @ onehot_rest) = (ns'', k, Some LibraryError)"
        using r by (rule run_stopped)
      then show ?thesis
        using k n l by (simp add: onehot_cell_def)
    qed
  qed
  have silent: "run lib 0 ns onehot_cell = (ns \<union> ?B, 18, Some (NameError ?LE))"
    if q: "\<forall>i j. i < 18 \<longrightarrow> \<not> lib i j"
  proof -
    have "run lib 0 ns onehot_prefix = run (\<lambda>i j. False) 0 ns onehot_prefix"
      using q by (intro run_silent) (simp add: l)
    then have "run lib 0 ns onehot_prefix = (ns \<union> ?B, length onehot_prefix, None)"
      by (simp only: run_onehot_prefix)
    then show ?thesis by (rule full)
  qed
  have n: "onehot_cell ! 18 = Stmt [Load ?LE, Op] [''le1'']"
    unfolding onehot_cell_def by (simp add: nth_append l) (simp add: onehot_rest_def)
  have "take 18 onehot_cell = onehot_prefix"
    unfolding onehot_cell_def using l by simp
  moreover have "\<forall>s \<in> set onehot_prefix. Load ''KMeans'' \<notin> set (steps s)"
    by (simp add: onehot_prefix_def)
  ultimately have k: "\<forall>s \<in> set (take 18 onehot_cell). Load ''KMeans'' \<notin> set (steps s)"
    by simp
  have c1: "?LE \<notin> fst (run lib 0 ns ordinal_cell)"
    using assms by (rule run_keeps_unbound) (simp add: ordinal_cell_def)
  have c2: "?LE \<notin> fst (run lib 0 ns onehot_cell)"
    using assms
    by (rule run_keeps_unbound) (simp add: onehot_cell_def onehot_prefix_def onehot_rest_def)
  have c3: "?LE \<notin> fst (run lib 0 ns sparse_cell)"
    using assms by (rule run_keeps_unbound) (simp add: sparse_cell_def)
  from label_encoder_unbound stop silent n k c1 c2 c3 show ?thesis
    by (intro conjI) auto
qed

theorem onehot_cell_raises_name_error_witness:
  "''LabelEncoder'' \<notin> fst (run quiet_lib 0 {} ordinal_cell) \<and>
   \<not> quiet_lib 14 1 \<and>
   snd (run quiet_lib 0 (fst (run quiet_lib 0 {} ordinal_cell)) onehot_cell) =
     (18, Some (NameError ''LabelEncoder''))"
proof -
  have h: "''LabelEncoder'' \<notin> fst (run quiet_lib 0 {} ordinal_cell)"
    by (simp add: ordinal_cell_def quiet_lib_def)
  have q: "\<forall>i j. i < 18 \<longrightarrow> \<not> quiet_lib i j"
    by (simp add: quiet_lib_def)
  from onehot_cell_raises_name_error [OF h, of quiet_lib] q
  have "run quiet_lib 0 (fst (run quiet_lib 0 {} ordinal_cell)) onehot_cell =
      (fst (run quiet_lib 0 {} ordinal_cell) \<union> set (concat (map binds onehot_prefix)), 18,
       Some (NameError ''LabelEncoder''))"
    by blast
  then have "snd (run quiet_lib 0 (fst (run quiet_lib 0 {} ordinal_cell)) onehot_cell) =
      (18, Some (NameError ''LabelEncoder''))"
    by simp
  moreover have "\<not> quiet_lib 14 1"
    by (simp add: quiet_lib_def)
  ultimately show ?thesis using h by (intro conjI)
qed

text \<open>
  The claim as first stated, a \<^verbatim>\<open>NameError\<close> in every run, fails when the fifteenth
  statement, \<^verbatim>\<open>encoder = OneHotEncoder(sparse=False)\<close>, raises: a scikit-learn whose
  encoder does not know the keyword \<^verbatim>\<open>sparse\<close> raises \<^verbatim>\<open>TypeError\<close> there, the cell stops
  after 14 statements, and \<open>LabelEncoder\<close> is never looked up.
\<close>

theorem onehot_cell_raises_name_error_counterexample:
  "''LabelEncoder'' \<notin> ({} :: string set) \<and>
   onehot_cell ! 14 = Stmt [Load ''OneHotEncoder'', Op] [''encoder''] \<and>
   sparse_rejected 14 1 \<and>
   snd (run sparse_rejected 0 {} onehot_cell) = (14, Some LibraryError) \<and>
   snd (run sparse_rejected 0 {} onehot_cell) \<noteq> (18, Some (NameError ''LabelEncoder''))"
  by (simp add: onehot_cell_def onehot_prefix_def onehot_rest_def sparse_rejected_def)

end
